theory Spec2Isabelle
  imports Complex_Main "HOL-Library.Sublist" "HOL-Library.Log_Nat"
begin

section \<open>Numbers\<close>

text \<open>
  The embedding follows \<^verbatim>\<open>src/service/rpc/generic/LoadBalancer.ts\<close> and the two codec
  functions of \<^verbatim>\<open>Utils\<close>. Logging is left out; what the network answers (manifests,
  probes, calls) and \<^verbatim>\<open>Math.random()\<close> are parameters of the operations.

  Block heights, response times and the tolerance are JavaScript numbers, that is IEEE 754
  double-precision values: \<^verbatim>\<open>NaN\<close>, the two infinities, or a finite value, which \<open>Num\<close>
  carries as the rational number it denotes (the two zeros are one value: the source only
  compares and subtracts, and neither tells them apart). An \<^verbatim>\<open>undefined\<close> tolerance behaves
  as \<^verbatim>\<open>NaN\<close> in the one subtraction that reads it.
\<close>

datatype number = NaN | NegInfinity | Infinity | Num rat

text \<open>\<open>num_less a b\<close> is the comparison \<^verbatim>\<open>a < b\<close> (and \<^verbatim>\<open>b > a\<close>): false when either is \<^verbatim>\<open>NaN\<close>.\<close>

fun num_less :: "number \<Rightarrow> number \<Rightarrow> bool" where
  "num_less NaN _ = False"
| "num_less _ NaN = False"
| "num_less NegInfinity NegInfinity = False"
| "num_less NegInfinity _ = True"
| "num_less (Num a) (Num b) = (a < b)"
| "num_less (Num a) Infinity = True"
| "num_less (Num a) NegInfinity = False"
| "num_less Infinity _ = False"

text \<open>\<open>num_eq a b\<close> is \<^verbatim>\<open>a === b\<close> on numbers: \<^verbatim>\<open>NaN\<close> is not equal to itself.\<close>

definition num_eq :: "number \<Rightarrow> number \<Rightarrow> bool" where
  "num_eq a b = (a \<noteq> NaN \<and> a = b)"

text \<open>Rounding to the nearest integer, a tie to the even one.\<close>

definition round_half_even :: "rat \<Rightarrow> int" where
  "round_half_even y =
     (let f = \<lfloor>y\<rfloor>; d = y - of_int f
      in if d < 1 / 2 then f
         else if 1 / 2 < d then f + 1
         else if even f then f else f + 1)"

text \<open>
  The double nearest to an exact result \<open>z\<close> (round to nearest, ties to even). Every
  finite double is an integer multiple of \<open>2\<^sup>-\<^sup>1\<^sup>0\<^sup>7\<^sup>4\<close> with a significand of at most 53
  bits, so \<open>z\<close> is counted in that unit, the \<open>k\<close> bits beyond the 53 leading ones are
  rounded away, and a result of \<open>2\<^sup>1\<^sup>0\<^sup>2\<^sup>4\<close> or more in magnitude is an infinity.
\<close>

definition to_double :: "rat \<Rightarrow> number" where
  "to_double z =
     (let scaled = z * 2 ^ 1074;
          k = nat (bitlen \<lfloor>\<bar>scaled\<bar>\<rfloor> - 53);
          m = round_half_even (scaled / 2 ^ k)
      in if 2 ^ 2098 \<le> \<bar>m\<bar> * 2 ^ k then (if z < 0 then NegInfinity else Infinity)
         else Num (of_int (m * 2 ^ k) / 2 ^ 1074))"

text \<open>\<open>num_sub a b\<close> is the subtraction \<^verbatim>\<open>a - b\<close>.\<close>

fun num_sub :: "number \<Rightarrow> number \<Rightarrow> number" where
  "num_sub NaN _ = NaN"
| "num_sub _ NaN = NaN"
| "num_sub Infinity Infinity = NaN"
| "num_sub NegInfinity NegInfinity = NaN"
| "num_sub Infinity _ = Infinity"
| "num_sub NegInfinity _ = NegInfinity"
| "num_sub (Num a) Infinity = NegInfinity"
| "num_sub (Num a) NegInfinity = Infinity"
| "num_sub (Num a) (Num b) = to_double (a - b)"

section \<open>Data model of the RPC load balancer\<close>

datatype RpcNodeType = NORMAL | ARCHIVE

text \<open>\<^verbatim>\<open>RpcNode\<close>: an entry of the configuration or of a manifest, \<^verbatim>\<open>{url, type}\<close>.\<close>

record RpcNode =
  node_url :: string
  node_type :: RpcNodeType

text \<open>\<^verbatim>\<open>RpcStatus\<close>; the field \<open>server_url\<close> is \<^verbatim>\<open>node.url\<close>.\<close>

record RpcStatus =
  server_url :: string
  lastBlock :: number
  lastResponseTime :: number
  failed :: bool

text \<open>\<^verbatim>\<open>UrlIndex\<close>; the empty object \<^verbatim>\<open>{} as UrlIndex\<close> is \<open>None\<close> in the state below.\<close>

record UrlIndex =
  active_url :: string
  active_index :: int

text \<open>The accumulator of the reduction: the running winner and its index.\<close>

record Winner =
  w_url :: string
  w_lastBlock :: number
  w_lastResponseTime :: number

record Selection =
  fastestServer :: Winner
  index :: int

definition as_winner :: "RpcStatus \<Rightarrow> Winner" where
  "as_winner item =
     \<lparr>w_url = server_url item, w_lastBlock = lastBlock item,
      w_lastResponseTime = lastResponseTime item\<rparr>"

definition initial_selection :: Selection where
  "initial_selection =
     \<lparr>fastestServer = \<lparr>w_url = '''', w_lastBlock = NegInfinity, w_lastResponseTime = Infinity\<rparr>,
      index = -1\<rparr>"

section \<open>Selection policy\<close>

text \<open>\<^verbatim>\<open>Array.prototype.reduce\<close> with the element's position as third argument.\<close>

fun reduce :: "('b \<Rightarrow> 'a \<Rightarrow> nat \<Rightarrow> 'b) \<Rightarrow> 'a list \<Rightarrow> nat \<Rightarrow> 'b \<Rightarrow> 'b" where
  "reduce f [] i acc = acc"
| "reduce f (x # xs) i acc = reduce f xs (Suc i) (f acc x i)"

text \<open>The callback of \<^verbatim>\<open>getFastestServer\<close>.\<close>

definition select_step :: "number \<Rightarrow> Selection \<Rightarrow> RpcStatus \<Rightarrow> nat \<Rightarrow> Selection" where
  "select_step allowedBlocksBehind result item i =
     (let isNotFailed = \<not> failed item;
          isFasterBlock =
            num_less (w_lastBlock (fastestServer result))
              (num_sub (lastBlock item) allowedBlocksBehind);
          isSameBlockFasterResponse =
            (num_eq (lastBlock item) (w_lastBlock (fastestServer result)) \<and>
             num_less (lastResponseTime item) (w_lastResponseTime (fastestServer result)))
      in if isNotFailed \<and> (isFasterBlock \<or> isSameBlockFasterResponse)
         then \<lparr>fastestServer = as_winner item, index = int i\<rparr>
         else result)"

definition getFastestServer :: "RpcStatus list \<Rightarrow> number \<Rightarrow> Selection" where
  "getFastestServer servers allowedBlocksBehind =
     reduce (select_step allowedBlocksBehind) servers 0 initial_selection"

text \<open>
  An endpoint's numbers beat the initial accumulator: the condition of the callback with
  \<^verbatim>\<open>-Infinity\<close> and \<^verbatim>\<open>Infinity\<close> for the winner's height and response time.
\<close>

definition pickable :: "number \<Rightarrow> RpcStatus \<Rightarrow> bool" where
  "pickable allowedBlocksBehind item =
     (num_less NegInfinity (num_sub (lastBlock item) allowedBlocksBehind) \<or>
      (num_eq (lastBlock item) NegInfinity \<and> num_less (lastResponseTime item) Infinity))"

text \<open>What a selection says about the list it was computed from.\<close>

definition selects :: "RpcStatus list \<Rightarrow> Selection \<Rightarrow> bool" where
  "selects servers sel =
     (0 \<le> index sel \<and> nat (index sel) < length servers \<and>
      \<not> failed (servers ! nat (index sel)) \<and>
      fastestServer sel = as_winner (servers ! nat (index sel)))"

section \<open>Registry state and errors\<close>

text \<open>
  The two fields of the class that the operations read and write: \<^verbatim>\<open>rpcUrls\<close> and
  \<^verbatim>\<open>activeUrl\<close>, both indexed by the node type.
\<close>

record State =
  rpcUrls :: "RpcNodeType \<Rightarrow> RpcStatus list"
  activeUrl :: "RpcNodeType \<Rightarrow> UrlIndex option"

definition initial_state :: State where
  "initial_state = \<lparr>rpcUrls = (\<lambda>_. []), activeUrl = (\<lambda>_. None)\<rparr>"

type_synonym Network = string

text \<open>
  The throw sites of the source. \<open>NoActiveServer e\<close> and \<open>AllNodesUnavailable e\<close> are the
  two places where \<^verbatim>\<open>handleFailedRpcCall\<close> rethrows the transport error \<open>e\<close>, after
  logging "No active server found" and "All RPC nodes are unavailable."; \<open>TypeError\<close> is
  the property access on \<^verbatim>\<open>undefined\<close> when an index is outside the array.
\<close>

datatype error =
    NoActiveNode
  | NoActiveServer string
  | AllNodesUnavailable string
  | TypeError
  | UnsupportedNetwork Network

section \<open>Status payload codec\<close>

datatype jsvalue = JUndefined | JNumber number | JString string

fun truthy :: "jsvalue \<Rightarrow> bool" where
  "truthy JUndefined = False"
| "truthy (JNumber n) = (n \<noteq> NaN \<and> n \<noteq> Num 0)"
| "truthy (JString s) = (s \<noteq> [])"

record JsonRpcCall =
  rpc_jsonrpc :: string
  rpc_method :: string
  rpc_params :: "jsvalue list"
  rpc_id :: int

text \<open>
  The network predicates are imported by \<^verbatim>\<open>Utils\<close> from \<^verbatim>\<open>../dto\<close>, which is not among
  the sources, so the codec takes them as a parameter.
\<close>

record NetworkDto =
  isUtxoBasedNetwork :: "Network \<Rightarrow> bool"
  isEvmBasedNetwork :: "Network \<Rightarrow> bool"
  isTronNetwork :: "Network \<Rightarrow> bool"

definition getStatusPayload :: "NetworkDto \<Rightarrow> Network \<Rightarrow> error + JsonRpcCall" where
  "getStatusPayload dto network =
     (if isUtxoBasedNetwork dto network
      then Inr \<lparr>rpc_jsonrpc = ''2.0'', rpc_method = ''getblockcount'', rpc_params = [], rpc_id = 1\<rparr>
      else if isEvmBasedNetwork dto network \<or> isTronNetwork dto network
      then Inr \<lparr>rpc_jsonrpc = ''2.0'', rpc_method = ''eth_blockNumber'', rpc_params = [], rpc_id = 1\<rparr>
      else Inl (UnsupportedNetwork network))"

text \<open>
  \<^verbatim>\<open>new BigNumber(v).toNumber()\<close>; how the library reads a string (decimal, or
  hexadecimal after \<^verbatim>\<open>0x\<close>) is the parameter \<open>bignumber\<close>.
\<close>

fun toNumber :: "(string \<Rightarrow> number) \<Rightarrow> jsvalue \<Rightarrow> number" where
  "toNumber bignumber (JNumber n) = n"
| "toNumber bignumber (JString s) = bignumber s"
| "toNumber bignumber JUndefined = NaN"

definition parseStatusPayload ::
  "NetworkDto \<Rightarrow> (string \<Rightarrow> number) \<Rightarrow> Network \<Rightarrow> jsvalue \<Rightarrow> error + number" where
  "parseStatusPayload dto bignumber network result =
     (if isUtxoBasedNetwork dto network \<or> isEvmBasedNetwork dto network
      then Inr (toNumber bignumber (if truthy result then result else JNumber (Num (-1))))
      else Inl (UnsupportedNetwork network))"

text \<open>
  A sample classification for the examples below, with one UTXO, one EVM and one Tron
  network. \<^verbatim>\<open>getRpc\<close> tests \<^verbatim>\<open>isEvmBasedNetwork\<close> before the Tron predicates and
  \<^verbatim>\<open>getStatusPayload\<close> tests both, so a Tron network is not an EVM network.
\<close>

definition sample_dto :: NetworkDto where
  "sample_dto =
     \<lparr>isUtxoBasedNetwork = (\<lambda>n. n = ''bitcoin-mainnet''),
      isEvmBasedNetwork = (\<lambda>n. n = ''ethereum-mainnet''),
      isTronNetwork = (\<lambda>n. n = ''tron-mainnet'')\<rparr>"

section \<open>URL resolution\<close>

definition getActiveUrl :: "State \<Rightarrow> RpcNodeType \<Rightarrow> string option \<times> RpcNodeType" where
  "getActiveUrl st nodeType = (map_option active_url (activeUrl st nodeType), nodeType)"

definition getActiveIndex :: "State \<Rightarrow> RpcNodeType \<Rightarrow> int option" where
  "getActiveIndex st nodeType = map_option active_index (activeUrl st nodeType)"

text \<open>The test \<^verbatim>\<open>x?.url\<close> in a condition: the URL is present and not the empty string.\<close>

fun url_truthy :: "string option \<Rightarrow> bool" where
  "url_truthy None = False"
| "url_truthy (Some s) = (s \<noteq> [])"

definition getActiveArchiveUrlWithFallback :: "State \<Rightarrow> error + (string \<times> RpcNodeType)" where
  "getActiveArchiveUrlWithFallback st =
     (let activeArchiveUrl = getActiveUrl st ARCHIVE
      in if url_truthy (fst activeArchiveUrl) then Inr (the (fst activeArchiveUrl), ARCHIVE)
         else if url_truthy (fst (getActiveUrl st NORMAL))
         then Inr (the (fst (getActiveUrl st NORMAL)), NORMAL)
         else Inl NoActiveNode)"

definition getActiveNormalUrlWithFallback :: "State \<Rightarrow> error + (string \<times> RpcNodeType)" where
  "getActiveNormalUrlWithFallback st =
     (let activeNormalUrl = getActiveUrl st NORMAL
      in if url_truthy (fst activeNormalUrl) then Inr (the (fst activeNormalUrl), NORMAL)
         else if url_truthy (fst (getActiveUrl st ARCHIVE))
         then Inr (the (fst (getActiveUrl st ARCHIVE)), ARCHIVE)
         else Inl NoActiveNode)"

text \<open>The conditional expression at the head of \<^verbatim>\<open>rawRpcCall\<close>.\<close>

definition resolveUrl :: "State \<Rightarrow> bool \<Rightarrow> error + (string \<times> RpcNodeType)" where
  "resolveUrl st archive =
     (if archive then getActiveArchiveUrlWithFallback st else getActiveNormalUrlWithFallback st)"

text \<open>\<open>active[k]\<close> has a URL, as the resolver tests it.\<close>

definition has_active_url :: "State \<Rightarrow> RpcNodeType \<Rightarrow> bool" where
  "has_active_url st k = url_truthy (fst (getActiveUrl st k))"

section \<open>Bootstrap\<close>

text \<open>
  \<^verbatim>\<open>new URL(url).hostname\<close> is the parameter \<open>hostname\<close>: \<open>None\<close> when the constructor
  throws. \<^verbatim>\<open>endsWith\<close> is \<^const>\<open>suffix\<close>.
\<close>

definition checkSSRF :: "(string \<Rightarrow> string option) \<Rightarrow> string \<Rightarrow> bool" where
  "checkSSRF hostname url =
     (case hostname url of Some h \<Rightarrow> suffix ''rpc.tatum.io'' h | None \<Rightarrow> False)"

definition new_status :: "string \<Rightarrow> RpcStatus" where
  "new_status u =
     \<lparr>server_url = u, lastBlock = Num 0, lastResponseTime = Num 0, failed = False\<rparr>"

text \<open>
  \<open>initRemoteHosts\<close>; \<open>r\<close> is the value of \<^verbatim>\<open>Math.random()\<close>, a number with
  \<open>0 \<le> r\<close> and \<open>r < 1\<close>, which keeps \<open>randomIndex\<close> inside the array.
\<close>

definition initRemoteHosts ::
  "(string \<Rightarrow> string option) \<Rightarrow> real \<Rightarrow> RpcNodeType \<Rightarrow> RpcNode list \<Rightarrow> bool \<Rightarrow> State \<Rightarrow> State" where
  "initRemoteHosts hostname r nodeType nodes noSSRFCheck st =
     (let filteredNodes =
            filter (\<lambda>node.
              let typeMatch = (node_type node = nodeType)
              in if noSSRFCheck then typeMatch
                 else (let ssrfCheckPassed = checkSSRF hostname (node_url node)
                       in typeMatch \<and> ssrfCheckPassed)) nodes
      in if length filteredNodes = 0 then st
         else let urls = rpcUrls st nodeType @ map (\<lambda>s. new_status (node_url s)) filteredNodes;
                  randomIndex = \<lfloor>r * real (length urls)\<rfloor>
              in st\<lparr>rpcUrls := (rpcUrls st)(nodeType := urls),
                    activeUrl := (activeUrl st)(nodeType :=
                      Some \<lparr>active_url = server_url (urls ! nat randomIndex),
                            active_index = randomIndex\<rparr>)\<rparr>)"

text \<open>The body of the \<^verbatim>\<open>for\<close> loop of \<^verbatim>\<open>initCustomNodes\<close>.\<close>

definition push_status :: "RpcNodeType \<Rightarrow> string \<Rightarrow> State \<Rightarrow> State" where
  "push_status nodeType u st =
     st\<lparr>rpcUrls := (rpcUrls st)(nodeType := rpcUrls st nodeType @ [new_status u])\<rparr>"

definition push_custom :: "State \<Rightarrow> RpcNode \<Rightarrow> State" where
  "push_custom st node =
     (let st1 = (if node_type node = NORMAL then push_status NORMAL (node_url node) st else st)
      in if node_type node = ARCHIVE then push_status ARCHIVE (node_url node) st1 else st1)"

definition initCustomNodes ::
  "(string \<Rightarrow> string option) \<Rightarrow> real \<Rightarrow> real \<Rightarrow> RpcNode list \<Rightarrow> State \<Rightarrow> State" where
  "initCustomNodes hostname r1 r2 nodes st =
     (let st1 = initRemoteHosts hostname r1 NORMAL nodes True st;
          st2 = initRemoteHosts hostname r2 ARCHIVE nodes True st1
      in if length nodes \<noteq> 0 then foldl push_custom st2 nodes else st2)"

text \<open>
  What a manifest request gave: a response that is not \<^verbatim>\<open>ok\<close>, one whose body does not
  decode, or the decoded node list. \<open>None\<close> for the pair is a rejected \<^verbatim>\<open>Promise.all\<close>.
\<close>

datatype Manifest = NotOk | Malformed | Nodes "RpcNode list"

text \<open>The two calls made for one manifest, NORMAL then ARCHIVE, with the SSRF check.\<close>

definition initBoth ::
  "(string \<Rightarrow> string option) \<Rightarrow> real \<Rightarrow> real \<Rightarrow> RpcNode list \<Rightarrow> State \<Rightarrow> State" where
  "initBoth hostname r1 r2 nodes st =
     initRemoteHosts hostname r2 ARCHIVE nodes False
       (initRemoteHosts hostname r1 NORMAL nodes False st)"

text \<open>
  \<open>initRemoteHostsUrls\<close>: an exception of \<^verbatim>\<open>normal.json()\<close> leaves the \<^verbatim>\<open>try\<close> block
  before the archive manifest is looked at; one of \<^verbatim>\<open>archive.json()\<close> comes after the
  normal manifest has been registered.
\<close>

definition initRemoteHostsUrls ::
  "(string \<Rightarrow> string option) \<Rightarrow> (nat \<Rightarrow> real) \<Rightarrow> (Manifest \<times> Manifest) option \<Rightarrow> State \<Rightarrow> State" where
  "initRemoteHostsUrls hostname rnd fetched st =
     (case fetched of
        None \<Rightarrow> st
      | Some (normal, archive) \<Rightarrow>
          (case normal of
             Malformed \<Rightarrow> st
           | _ \<Rightarrow>
             (let st1 = (case normal of
                           Nodes nodes \<Rightarrow> initBoth hostname (rnd 0) (rnd 1) nodes st
                         | _ \<Rightarrow> st)
              in case archive of
                   Nodes nodes \<Rightarrow> initBoth hostname (rnd 2) (rnd 3) nodes st1
                 | _ \<Rightarrow> st1)))"

text \<open>The first statement of \<^verbatim>\<open>init\<close>: static mode when \<^verbatim>\<open>config.rpc?.nodes\<close> is given.\<close>

definition init_registry ::
  "(string \<Rightarrow> string option) \<Rightarrow> (nat \<Rightarrow> real) \<Rightarrow> RpcNode list option \<Rightarrow>
   (Manifest \<times> Manifest) option \<Rightarrow> State \<Rightarrow> State" where
  "init_registry hostname rnd nodes fetched st =
     (case nodes of
        Some ns \<Rightarrow> initCustomNodes hostname (rnd 0) (rnd 1) ns st
      | None \<Rightarrow> initRemoteHostsUrls hostname rnd fetched st)"

section \<open>Status probe\<close>

text \<open>
  What one probe request gave: a rejected fetch (transport error or timeout), or a response
  after \<open>responseTime\<close> milliseconds whose body either does not decode or decodes to an
  object of which the model keeps \<^verbatim>\<open>res.ok\<close> and the \<^verbatim>\<open>result\<close> field.
\<close>

datatype ProbeBody = BodyMalformed | Body bool jsvalue

datatype ProbeOutcome = FetchRejected | Responded number ProbeBody

text \<open>
  The \<^verbatim>\<open>then\<close> and \<^verbatim>\<open>catch\<close> callbacks of one probe. An exception of \<^verbatim>\<open>res.json()\<close> or
  of \<^verbatim>\<open>parseStatusPayload\<close> reaches the \<^verbatim>\<open>catch\<close>, which sets \<open>failed\<close>.
\<close>

definition probe_update ::
  "NetworkDto \<Rightarrow> (string \<Rightarrow> number) \<Rightarrow> Network \<Rightarrow> ProbeOutcome \<Rightarrow> RpcStatus \<Rightarrow> RpcStatus" where
  "probe_update dto bignumber network outcome server =
     (case outcome of
        FetchRejected \<Rightarrow> server\<lparr>failed := True\<rparr>
      | Responded responseTime body \<Rightarrow>
          (let server1 = server\<lparr>lastResponseTime := responseTime\<rparr>
           in case body of
                BodyMalformed \<Rightarrow> server1\<lparr>failed := True\<rparr>
              | Body ok result \<Rightarrow>
                  if ok \<and> truthy result
                  then (case parseStatusPayload dto bignumber network result of
                          Inr height \<Rightarrow> server1\<lparr>failed := False, lastBlock := height\<rparr>
                        | Inl e \<Rightarrow> server1\<lparr>failed := True\<rparr>)
                  else server1\<lparr>failed := True\<rparr>))"

text \<open>
  The part of \<open>checkStatus\<close> after the requests have been issued: every endpoint takes its
  probe's outcome (\<open>probes i\<close> for position \<open>i\<close>), then the selection runs.
\<close>

definition probe_pass ::
  "NetworkDto \<Rightarrow> (string \<Rightarrow> number) \<Rightarrow> Network \<Rightarrow> number \<Rightarrow> (nat \<Rightarrow> ProbeOutcome) \<Rightarrow>
   RpcNodeType \<Rightarrow> State \<Rightarrow> State" where
  "probe_pass dto bignumber network allowedBlocksBehind probes nodeType st =
     (let servers =
            map (\<lambda>(i, server). probe_update dto bignumber network (probes i) server)
              (enumerate 0 (rpcUrls st nodeType));
          st1 = st\<lparr>rpcUrls := (rpcUrls st)(nodeType := servers)\<rparr>;
          sel = getFastestServer servers allowedBlocksBehind
      in if index sel \<noteq> -1
         then st1\<lparr>activeUrl := (activeUrl st1)(nodeType :=
                Some \<lparr>active_url = w_url (fastestServer sel), active_index = index sel\<rparr>)\<rparr>
         else st1)"

text \<open>
  \<open>checkStatus\<close>: the request body is computed for each endpoint, so with a network that
  has no codec the first endpoint makes the whole call throw.
\<close>

definition checkStatus ::
  "NetworkDto \<Rightarrow> (string \<Rightarrow> number) \<Rightarrow> Network \<Rightarrow> number \<Rightarrow> (nat \<Rightarrow> ProbeOutcome) \<Rightarrow>
   RpcNodeType \<Rightarrow> State \<Rightarrow> error + State" where
  "checkStatus dto bignumber network allowedBlocksBehind probes nodeType st =
     (case getStatusPayload dto network of
        Inl e \<Rightarrow>
          if rpcUrls st nodeType = []
          then Inr (probe_pass dto bignumber network allowedBlocksBehind probes nodeType st)
          else Inl e
      | Inr payload \<Rightarrow>
          Inr (probe_pass dto bignumber network allowedBlocksBehind probes nodeType st))"

section \<open>Dispatcher\<close>

text \<open>
  \<open>handleFailedRpcCall\<close> (the request is only logged and is left out). The result is the
  error thrown, if any, and the state the call leaves behind: the \<open>failed\<close> flag is
  written before the selection, so it stays when the selection finds nothing.
\<close>

definition handleFailedRpcCall ::
  "number \<Rightarrow> string \<Rightarrow> RpcNodeType \<Rightarrow> State \<Rightarrow> error option \<times> State" where
  "handleFailedRpcCall allowedBlocksBehind e nodeType st =
     (case getActiveIndex st nodeType of
        None \<Rightarrow> (Some (NoActiveServer e), st)
      | Some activeIndex \<Rightarrow>
          (let servers = rpcUrls st nodeType
           in if activeIndex < 0 \<or> length servers \<le> nat activeIndex then (Some TypeError, st)
              else
                (let servers1 = servers[nat activeIndex := (servers ! nat activeIndex)\<lparr>failed := True\<rparr>];
                     st1 = st\<lparr>rpcUrls := (rpcUrls st)(nodeType := servers1)\<rparr>;
                     sel = getFastestServer servers1 allowedBlocksBehind
                 in if index sel = -1 then (Some (AllNodesUnavailable e), st1)
                    else (None, st1\<lparr>activeUrl := (activeUrl st1)(nodeType :=
                            Some \<lparr>active_url = w_url (fastestServer sel),
                                  active_index = index sel\<rparr>)\<rparr>))))"

text \<open>
  The measure of the retry recursion: twice the number of endpoints not marked failed,
  plus one for each kind whose active entry does not name such an endpoint.
\<close>

definition live :: "State \<Rightarrow> RpcNodeType \<Rightarrow> nat" where
  "live st k = length (filter (\<lambda>s. \<not> failed s) (rpcUrls st k))"

definition stale :: "State \<Rightarrow> RpcNodeType \<Rightarrow> nat" where
  "stale st k =
     (case activeUrl st k of
        None \<Rightarrow> 0
      | Some a \<Rightarrow>
          if 0 \<le> active_index a \<and> nat (active_index a) < length (rpcUrls st k) \<and>
             \<not> failed (rpcUrls st k ! nat (active_index a))
          then 0 else 1)"

definition retry_measure :: "State \<Rightarrow> nat" where
  "retry_measure st =
     2 * live st NORMAL + stale st NORMAL + (2 * live st ARCHIVE + stale st ARCHIVE)"

section \<open>Registry--active consistency\<close>

text \<open>
  The invariant of the data model: an active entry of kind \<open>k\<close> names a position of
  \<open>endpoints[k]\<close>, and the endpoint there has the entry's URL.
\<close>

definition consistent_kind :: "State \<Rightarrow> RpcNodeType \<Rightarrow> bool" where
  "consistent_kind st k =
     (case activeUrl st k of
        None \<Rightarrow> True
      | Some a \<Rightarrow>
          0 \<le> active_index a \<and> nat (active_index a) < length (rpcUrls st k) \<and>
          server_url (rpcUrls st k ! nat (active_index a)) = active_url a)"

definition consistent :: "State \<Rightarrow> bool" where
  "consistent st = (consistent_kind st NORMAL \<and> consistent_kind st ARCHIVE)"

text \<open>Every registered URL passes the SSRF check.\<close>

definition admitted_pass :: "(string \<Rightarrow> string option) \<Rightarrow> State \<Rightarrow> bool" where
  "admitted_pass hostname st =
     (\<forall>k. \<forall>s\<in>set (rpcUrls st k). checkSSRF hostname (server_url s))"

section \<open>Failover makes progress\<close>

text \<open>
  The recursion of the retrying call is defined below by a measure on the state; these
  facts about the selection and the failover show that the measure decreases.
\<close>

lemma reduce_select_invariant:
  assumes "sel = initial_selection \<or> selects (pre @ xs) sel"
  shows "reduce (select_step a) xs (length pre) sel = initial_selection \<or>
         selects (pre @ xs) (reduce (select_step a) xs (length pre) sel)"
  using assms
proof (induction xs arbitrary: pre sel)
  case Nil
  then show ?case by simp
next
  case (Cons x xs)
  let ?sel' = "select_step a sel x (length pre)"
  have step: "?sel' = initial_selection \<or> selects ((pre @ [x]) @ xs) ?sel'"
  proof (cases "?sel' = sel")
    case True
    with Cons.prems show ?thesis by simp
  next
    case False
    then have "?sel' = \<lparr>fastestServer = as_winner x, index = int (length pre)\<rparr>" and "\<not> failed x"
      by (auto simp: select_step_def Let_def split: if_splits)
    then show ?thesis by (simp add: selects_def)
  qed
  from Cons.IH [of ?sel' "pre @ [x]"] step show ?case by simp
qed

lemma getFastestServer_cases:
  "getFastestServer servers a = initial_selection \<or> selects servers (getFastestServer servers a)"
  using reduce_select_invariant [of initial_selection "[]" servers a]
  by (simp add: getFastestServer_def)

lemma getFastestServer_selected:
  "index (getFastestServer servers a) \<noteq> -1 \<Longrightarrow> selects servers (getFastestServer servers a)"
  using getFastestServer_cases [of servers a] by (auto simp: initial_selection_def)

lemma length_filter_update:
  "i < length xs \<Longrightarrow>
     length (filter P (xs[i := y])) + (if P (xs ! i) then 1 else 0) =
     length (filter P xs) + (if P y then 1 else 0)"
proof (induction xs arbitrary: i)
  case Nil
  then show ?case by simp
next
  case (Cons x xs)
  show ?case
  proof (cases i)
    case 0
    then show ?thesis by simp
  next
    case (Suc j)
    with Cons.prems have "j < length xs" by simp
    from Cons.IH [OF this] Suc show ?thesis by simp
  qed
qed

lemma live_mark_failed:
  assumes "i < length xs"
  shows "length (filter (\<lambda>s. \<not> failed s) (xs[i := (xs ! i)\<lparr>failed := True\<rparr>])) +
           (if failed (xs ! i) then 0 else 1) = length (filter (\<lambda>s. \<not> failed s) xs)"
  using length_filter_update [OF assms, of "\<lambda>s. \<not> failed s" "(xs ! i)\<lparr>failed := True\<rparr>"]
  by (simp split: if_splits)

text \<open>What a successful failover leaves behind.\<close>

lemma handleFailedRpcCall_None:
  assumes "handleFailedRpcCall a e k st = (None, st')"
  obtains act sel where
    "activeUrl st k = Some act" "0 \<le> active_index act" "nat (active_index act) < length (rpcUrls st k)"
    "sel = getFastestServer ((rpcUrls st k)[nat (active_index act) :=
             (rpcUrls st k ! nat (active_index act))\<lparr>failed := True\<rparr>]) a"
    "index sel \<noteq> -1"
    "st' = \<lparr>rpcUrls = (rpcUrls st)(k := (rpcUrls st k)[nat (active_index act) :=
                (rpcUrls st k ! nat (active_index act))\<lparr>failed := True\<rparr>]),
            activeUrl = (activeUrl st)(k :=
                Some \<lparr>active_url = w_url (fastestServer sel), active_index = index sel\<rparr>)\<rparr>"
  using assms
  by (auto simp: handleFailedRpcCall_def getActiveIndex_def Let_def split: option.splits if_splits)

lemma handleFailedRpcCall_decreases:
  assumes "handleFailedRpcCall a e k st = (None, st')"
  shows "retry_measure st' < retry_measure st"
proof -
  from assms obtain act sel where
    act: "activeUrl st k = Some act" "0 \<le> active_index act"
      "nat (active_index act) < length (rpcUrls st k)" and
    sel: "sel = getFastestServer ((rpcUrls st k)[nat (active_index act) :=
             (rpcUrls st k ! nat (active_index act))\<lparr>failed := True\<rparr>]) a"
      "index sel \<noteq> -1" and
    st': "st' = \<lparr>rpcUrls = (rpcUrls st)(k := (rpcUrls st k)[nat (active_index act) :=
                (rpcUrls st k ! nat (active_index act))\<lparr>failed := True\<rparr>]),
            activeUrl = (activeUrl st)(k :=
                Some \<lparr>active_url = w_url (fastestServer sel), active_index = index sel\<rparr>)\<rparr>"
    by (rule handleFailedRpcCall_None)
  let ?i = "nat (active_index act)"
  let ?xs = "rpcUrls st k"
  let ?ys = "?xs[?i := (?xs ! ?i)\<lparr>failed := True\<rparr>]"
  from sel have "selects ?ys sel" using getFastestServer_selected by blast
  then have stale': "stale st' k = 0"
    by (simp add: stale_def st' selects_def)
  have live': "live st' k + (if failed (?xs ! ?i) then 0 else 1) = live st k"
    using live_mark_failed [OF act(3)] by (simp add: live_def st')
  have stale: "failed (?xs ! ?i) \<Longrightarrow> stale st k = 1"
    by (simp add: stale_def act)
  have k: "2 * live st' k + stale st' k < 2 * live st k + stale st k"
    using stale' live' stale by (cases "failed (?xs ! ?i)") auto
  have other: "k' \<noteq> k \<Longrightarrow> live st' k' = live st k' \<and> stale st' k' = stale st k'" for k'
    by (simp add: live_def stale_def st' split: option.splits)
  show ?thesis
  proof (cases k)
    case NORMAL
    with k other [of ARCHIVE] show ?thesis by (simp add: retry_measure_def)
  next
    case ARCHIVE
    with k other [of NORMAL] show ?thesis by (simp add: retry_measure_def)
  qed
qed


section \<open>The retrying call\<close>

text \<open>
  \<open>rawRpcCall\<close>. The transport is the parameter \<open>connector\<close>: attempt number, URL and
  request give either a transport error or a response. The result is what the call
  returns or throws, the state it leaves, and the attempts made in order, each with the
  value of the \<^verbatim>\<open>archive\<close> parameter it ran under. The recursive call of the source is
  \<^verbatim>\<open>this.rawRpcCall(rpcCall)\<close>, so its \<^verbatim>\<open>archive\<close> is \<^verbatim>\<open>undefined\<close>, which is \<open>False\<close> here.
\<close>

record Attempt =
  at_url :: string
  at_type :: RpcNodeType
  at_request :: JsonRpcCall
  at_archive :: bool

function rawRpcCall ::
  "(nat \<Rightarrow> string \<Rightarrow> JsonRpcCall \<Rightarrow> string + string) \<Rightarrow> number \<Rightarrow> nat \<Rightarrow> State \<Rightarrow> JsonRpcCall \<Rightarrow>
   bool \<Rightarrow>
   (error + string) \<times> State \<times> Attempt list" where
  "rawRpcCall connector allowedBlocksBehind n st rpcCall archive =
     (case resolveUrl st archive of
        Inl err \<Rightarrow> (Inl err, st, [])
      | Inr (url, type) \<Rightarrow>
          (let attempt = \<lparr>at_url = url, at_type = type, at_request = rpcCall, at_archive = archive\<rparr>
           in case connector n url rpcCall of
                Inr response \<Rightarrow> (Inr response, st, [attempt])
              | Inl e \<Rightarrow>
                  (case handleFailedRpcCall allowedBlocksBehind e type st of
                     (Some err, st1) \<Rightarrow> (Inl err, st1, [attempt])
                   | (None, st1) \<Rightarrow>
                       (case rawRpcCall connector allowedBlocksBehind (Suc n) st1 rpcCall False of
                          (res, st2, attempts) \<Rightarrow> (res, st2, attempt # attempts)))))"
  by pat_completeness auto
termination
  by (relation "measure (\<lambda>(connector, allowedBlocksBehind, n, st, rpcCall, archive). retry_measure st)")
     (auto dest: handleFailedRpcCall_decreases [OF sym])

declare rawRpcCall.simps [simp del]

section \<open>Sample inputs\<close>

definition endpoint :: "string \<Rightarrow> bool \<Rightarrow> RpcStatus" where
  "endpoint u f =
     \<lparr>server_url = u, lastBlock = Num 0, lastResponseTime = Num 0, failed = f\<rparr>"

definition active_at :: "string \<Rightarrow> int \<Rightarrow> UrlIndex option" where
  "active_at u i = Some \<lparr>active_url = u, active_index = i\<rparr>"

text \<open>One NORMAL endpoint and two ARCHIVE endpoints, none failed, the first of each active.\<close>

definition two_pools :: State where
  "two_pools =
     \<lparr>rpcUrls = (\<lambda>k. case k of
          NORMAL \<Rightarrow> [endpoint ''https://n0'' False]
        | ARCHIVE \<Rightarrow> [endpoint ''https://a0'' False, endpoint ''https://a1'' False]),
      activeUrl = (\<lambda>k. case k of
          NORMAL \<Rightarrow> active_at ''https://n0'' 0
        | ARCHIVE \<Rightarrow> active_at ''https://a0'' 0)\<rparr>"

definition sample_request :: JsonRpcCall where
  "sample_request =
     \<lparr>rpc_jsonrpc = ''2.0'', rpc_method = ''eth_getBalance'', rpc_params = [], rpc_id = 1\<rparr>"

text \<open>Spec scenario 2: no NORMAL endpoint, one active ARCHIVE endpoint; and its mirror image.\<close>

definition archive_only :: State where
  "archive_only =
     \<lparr>rpcUrls = (\<lambda>k. case k of NORMAL \<Rightarrow> [] | ARCHIVE \<Rightarrow> [endpoint ''https://x'' False]),
      activeUrl = (\<lambda>k. case k of NORMAL \<Rightarrow> None | ARCHIVE \<Rightarrow> active_at ''https://x'' 0)\<rparr>"

definition normal_only :: State where
  "normal_only =
     \<lparr>rpcUrls = (\<lambda>k. case k of NORMAL \<Rightarrow> [endpoint ''https://y'' False] | ARCHIVE \<Rightarrow> []),
      activeUrl = (\<lambda>k. case k of NORMAL \<Rightarrow> active_at ''https://y'' 0 | ARCHIVE \<Rightarrow> None)\<rparr>"

text \<open>
  Two NORMAL endpoints, none failed: the first has the height \<^verbatim>\<open>NaN\<close> that a probe stores
  when the result does not read as a number, the second is active.
\<close>

definition unparsed_pool :: State where
  "unparsed_pool =
     \<lparr>rpcUrls = (\<lambda>k. case k of
          NORMAL \<Rightarrow>
            [\<lparr>server_url = ''https://n0'', lastBlock = NaN, lastResponseTime = Num 40,
               failed = False\<rparr>,
             endpoint ''https://n1'' False]
        | ARCHIVE \<Rightarrow> []),
      activeUrl = (\<lambda>k. case k of NORMAL \<Rightarrow> active_at ''https://n1'' 1 | ARCHIVE \<Rightarrow> None)\<rparr>"

text \<open>Two transports: one that fails every request, one that fails at a single URL.\<close>

definition always_down :: "nat \<Rightarrow> string \<Rightarrow> JsonRpcCall \<Rightarrow> string + string" where
  "always_down n url rq = Inl ''down''"

definition down_at :: "string \<Rightarrow> nat \<Rightarrow> string \<Rightarrow> JsonRpcCall \<Rightarrow> string + string" where
  "down_at u n url rq = (if url = u then Inl ''down'' else Inr (''response of '' @ url))"

text \<open>
  Spec scenario 3: a manifest with one foreign URL and one under \<open>rpc.tatum.io\<close>, and the
  host names \<^verbatim>\<open>new URL\<close> gives for the two.
\<close>

definition sample_hostname :: "string \<Rightarrow> string option" where
  "sample_hostname u =
     (if u = ''https://evil.com/rpc'' then Some ''evil.com''
      else if u = ''https://eth-mainnet.rpc.tatum.io'' then Some ''eth-mainnet.rpc.tatum.io''
      else None)"

definition sample_manifest :: "RpcNode list" where
  "sample_manifest =
     [\<lparr>node_url = ''https://evil.com/rpc'', node_type = NORMAL\<rparr>,
      \<lparr>node_url = ''https://eth-mainnet.rpc.tatum.io'', node_type = NORMAL\<rparr>]"

text \<open>A probe pass in which the first endpoint does not answer and the others report height 120.\<close>

definition sample_probes :: "nat \<Rightarrow> ProbeOutcome" where
  "sample_probes i = (if i = 0 then FetchRejected else Responded (Num 40) (Body True (JNumber (Num 120))))"

section \<open>Double-precision arithmetic\<close>

text \<open>
  The rounding is exact on the integers up to \<open>2\<^sup>5\<^sup>3\<close> in magnitude, it takes the odd
  integer \<open>2\<^sup>5\<^sup>3 + 1\<close> to \<open>2\<^sup>5\<^sup>3\<close>, and it never takes a result that is not negative to
  \<^verbatim>\<open>-Infinity\<close>.
\<close>

lemma round_half_even_of_int [simp]: "round_half_even (of_int m) = m"
  by (simp add: round_half_even_def)

lemma to_double_scaled:
  assumes "z * 2 ^ 1074 = of_int m * 2 ^ k" "k = nat (bitlen \<lfloor>\<bar>z * 2 ^ 1074\<bar>\<rfloor> - 53)"
    "\<bar>m\<bar> * 2 ^ k < 2 ^ 2098"
  shows "to_double z = Num z"
proof -
  have nz: "(2::rat) ^ n \<noteq> 0" for n by (rule power_not_zero) (rule zero_neq_numeral [symmetric])
  have "z * 2 ^ 1074 / 2 ^ k = of_int m"
    by (simp only: assms(1) nonzero_mult_div_cancel_right [OF nz])
  then have m: "round_half_even (z * 2 ^ 1074 / 2 ^ k) = m"
    by (simp only: round_half_even_of_int)
  have "(of_int (m * 2 ^ k) :: rat) = z * 2 ^ 1074"
    by (simp only: assms(1) of_int_mult of_int_power of_int_numeral)
  then have v: "(of_int (m * 2 ^ k) :: rat) / 2 ^ 1074 = z"
    by (simp only: nonzero_mult_div_cancel_right [OF nz])
  have n: "\<not> 2 ^ 2098 \<le> \<bar>m\<bar> * 2 ^ k" using assms(3) by (simp only: not_le)
  show ?thesis
    unfolding to_double_def Let_def assms(2) [symmetric] m
    by (simp only: n if_False v)
qed

lemma to_double_int:
  assumes "\<bar>a\<bar> \<le> 2 ^ 53"
  shows "to_double (of_int a) = Num (of_int a)"
proof (cases "a = 0")
  case True
  have "to_double 0 = Num 0"
    by (rule to_double_scaled [of 0 0 0]) simp_all
  with True show ?thesis by simp
next
  case False
  let ?n = "\<bar>a\<bar>"
  have pos: "0 < ?n" using False by simp
  have fl: "\<lfloor>\<bar>(of_int a :: rat) * 2 ^ 1074\<bar>\<rfloor> = ?n * 2 ^ 1074"
  proof -
    have "\<bar>(of_int a :: rat) * 2 ^ 1074\<bar> = of_int (?n * 2 ^ 1074)" by (simp add: abs_mult)
    then show ?thesis by (simp only: floor_of_int)
  qed
  have bl: "bitlen (?n * 2 ^ 1074) = bitlen ?n + 1074" using bitlen_pow2 [OF pos, of 1074] by simp
  have b1: "1 \<le> bitlen ?n" using pos bitlen_eq_zero_iff [of ?n] bitlen_nonneg [of ?n] by linarith
  have b54: "bitlen ?n \<le> 54"
    using assms by (simp add: bitlen_le_iff_power)
  define k where "k = nat (bitlen ?n + 1021)"
  have keq: "k = nat (bitlen \<lfloor>\<bar>(of_int a :: rat) * 2 ^ 1074\<bar>\<rfloor> - 53)"
    by (simp only: fl bl k_def)
  show ?thesis
  proof (cases "bitlen ?n \<le> 53")
    case True
    with b1 have kle: "k \<le> 1074" by (simp add: k_def)
    define m where "m = a * 2 ^ (1074 - k)"
    have "(2::int) ^ (1074 - k) * 2 ^ k = 2 ^ 1074"
      using kle by (simp flip: power_add)
    then have mk: "m * 2 ^ k = a * 2 ^ 1074" by (simp add: m_def mult.assoc)
    then have "(of_int (m * 2 ^ k) :: rat) = of_int (a * 2 ^ 1074)" by simp
    then have e1: "(of_int a :: rat) * 2 ^ 1074 = of_int m * 2 ^ k" by simp
    have "\<bar>m\<bar> * 2 ^ k = \<bar>m * 2 ^ k\<bar>" by (simp add: abs_mult)
    also have "\<dots> = ?n * 2 ^ 1074" by (simp add: mk abs_mult)
    also have "\<dots> \<le> 2 ^ 53 * 2 ^ 1074" using assms by simp
    also have "\<dots> < (2::int) ^ 2098" by simp
    finally have "\<bar>m\<bar> * 2 ^ k < 2 ^ 2098" .
    from to_double_scaled [OF e1 keq this] show ?thesis .
  next
    case False
    with b54 have b: "bitlen ?n = 54" by simp
    then have "\<not> bitlen ?n \<le> 53" by simp
    then have "\<not> ?n < 2 ^ 53" by (simp add: bitlen_le_iff_power)
    with assms have n: "?n = 2 ^ 53" by simp
    have k: "k = 1075" by (simp add: k_def b)
    define m where "m = a div 2"
    from n have "even a" by (metis even_abs_add_iff even_add even_numeral even_power zero_less_numeral)
    then have a: "a = m * 2" by (simp add: m_def)
    have e1: "(of_int a :: rat) * 2 ^ 1074 = of_int m * 2 ^ k"
      by (simp add: a k)
    have "\<bar>m\<bar> * 2 = ?n" by (simp add: a abs_mult)
    with n have "\<bar>m\<bar> = 2 ^ 52" by simp
    then have "\<bar>m\<bar> * 2 ^ k < 2 ^ 2098" by (simp add: k)
    from to_double_scaled [OF e1 keq this] show ?thesis .
  qed
qed

lemma round_half_even_tie:
  "round_half_even (of_int f + 1 / 2) = (if even f then f else f + 1)"
proof -
  have "\<lfloor>(of_int f :: rat) + 1 / 2\<rfloor> = f" by (rule floor_unique) simp_all
  then show ?thesis by (simp add: round_half_even_def Let_def)
qed

lemma to_double_tie: "to_double (2 ^ 53 + 1) = Num (2 ^ 53)"
proof -
  have fl: "\<lfloor>\<bar>((2::rat) ^ 53 + 1) * 2 ^ 1074\<bar>\<rfloor> = (2 ^ 53 + 1) * 2 ^ 1074"
  proof -
    have "\<bar>((2::rat) ^ 53 + 1) * 2 ^ 1074\<bar> = of_int ((2 ^ 53 + 1) * 2 ^ 1074)" by simp
    then show ?thesis by (simp only: floor_of_int)
  qed
  have b54: "bitlen (2 ^ 53 + 1) = 54" using bitlen_twopow_add_eq [of 1 53] by simp
  have "bitlen ((2 ^ 53 + 1) * 2 ^ 1074) = bitlen (2 ^ 53 + 1) + int 1074"
    by (rule bitlen_pow2) simp
  then have bl: "bitlen ((2 ^ 53 + 1) * 2 ^ 1074) = 1128" by (simp only: b54)
  have k: "nat (bitlen \<lfloor>\<bar>((2::rat) ^ 53 + 1) * 2 ^ 1074\<bar>\<rfloor> - 53) = 1075"
    by (simp only: fl bl)
  have q: "((2::rat) ^ 53 + 1) * 2 ^ 1074 / 2 ^ 1075 = 2 ^ 52 + 1 / 2"
    by simp
  have r: "round_half_even (2 ^ 52 + 1 / 2) = 2 ^ 52"
    using round_half_even_tie [of "2 ^ 52"] by simp
  show ?thesis
    by (simp only: to_double_def Let_def k q r) simp
qed

lemma to_double_nonneg: "0 \<le> z \<Longrightarrow> num_less NegInfinity (to_double z)"
  by (simp add: to_double_def Let_def)

lemma to_double_zero [simp]: "to_double 0 = Num 0"
  using to_double_int [of 0] by simp

lemma to_double_one [simp]: "to_double 1 = Num 1"
  using to_double_int [of 1] by simp

lemma to_double_neg_one [simp]: "to_double (- 1) = Num (- 1)"
  using to_double_int [of "- 1"] by simp

lemma to_double_numeral [simp]:
  "numeral w \<le> (2::int) ^ 53 \<Longrightarrow> to_double (numeral w) = Num (numeral w)"
  using to_double_int [of "numeral w"] by simp

lemma to_double_neg_numeral [simp]:
  "numeral w \<le> (2::int) ^ 53 \<Longrightarrow> to_double (- numeral w) = Num (- numeral w)"
  using to_double_int [of "- numeral w"] by simp

lemma num_sub_safe:
  "\<bar>c - t\<bar> \<le> 2 ^ 53 \<Longrightarrow> num_sub (Num (of_int c)) (Num (of_int t)) = Num (of_int (c - t))"
  using to_double_int [of "c - t"] by simp

section \<open>Properties of the selection policy\<close>

text \<open>
  C1: for every list of endpoint records and every tolerance, whenever the selection policy
  returns an index other than \<open>-1\<close>, that index is a position of the list and the endpoint
  there has \<open>failed = False\<close>.
\<close>

theorem getFastestServer_never_failed:
  "index (getFastestServer servers allowedBlocksBehind) \<noteq> -1 \<Longrightarrow>
     0 \<le> index (getFastestServer servers allowedBlocksBehind) \<and>
     nat (index (getFastestServer servers allowedBlocksBehind)) < length servers \<and>
     failed (servers ! nat (index (getFastestServer servers allowedBlocksBehind))) = False"
  using getFastestServer_cases [of servers allowedBlocksBehind]
  by (auto simp: selects_def initial_selection_def)

theorem getFastestServer_never_failed_witness:
  "index (getFastestServer
      [\<lparr>server_url = ''A'', lastBlock = Num 120, lastResponseTime = Num 10, failed = True\<rparr>,
       \<lparr>server_url = ''B'', lastBlock = Num 100, lastResponseTime = Num 50, failed = False\<rparr>]
      (Num 5)) \<noteq> -1 \<and>
   failed ([\<lparr>server_url = ''A'', lastBlock = Num 120, lastResponseTime = Num 10, failed = True\<rparr>,
       \<lparr>server_url = ''B'', lastBlock = Num 100, lastResponseTime = Num 50, failed = False\<rparr>] !
     nat (index (getFastestServer
      [\<lparr>server_url = ''A'', lastBlock = Num 120, lastResponseTime = Num 10, failed = True\<rparr>,
       \<lparr>server_url = ''B'', lastBlock = Num 100, lastResponseTime = Num 50, failed = False\<rparr>]
      (Num 5)))) = False"
proof -
  let ?servers =
    "[\<lparr>server_url = ''A'', lastBlock = Num 120, lastResponseTime = Num 10, failed = True\<rparr>,
      \<lparr>server_url = ''B'', lastBlock = Num 100, lastResponseTime = Num 50, failed = False\<rparr>]"
  have h: "index (getFastestServer ?servers (Num 5)) \<noteq> -1"
    by (simp add: getFastestServer_def select_step_def initial_selection_def)
  from getFastestServer_never_failed [OF h] h show ?thesis by blast
qed

lemma reduce_append:
  "reduce f (xs @ ys) i acc = reduce f ys (i + length xs) (reduce f xs i acc)"
  by (induction xs arbitrary: i acc) simp_all

lemma getFastestServer_snoc:
  "getFastestServer (pre @ [c]) a = select_step a (getFastestServer pre a) c (length pre)"
  by (simp add: getFastestServer_def reduce_append)

lemmas to_double_tie_numeral = to_double_tie [simplified]

text \<open>
  C6 as stated fails where the subtraction rounds: with \<open>A\<close> at height \<open>2\<^sup>5\<^sup>3\<close>, \<open>B\<close> at
  height \<open>2\<^sup>5\<^sup>3 + 2\<close> and tolerance 1, neither failed, \<open>B\<close> is ahead of \<open>A\<close> by 2, which is
  more than the tolerance, but \<open>B\<close>'s height minus 1 is computed as \<open>2\<^sup>5\<^sup>3\<close>, which is not
  above \<open>A\<close>'s height, and the selection keeps \<open>A\<close>.
\<close>

theorem candidate_ahead_lost_to_rounding:
  "failed \<lparr>server_url = ''B'', lastBlock = Num (2 ^ 53 + 2), lastResponseTime = Num 200,
      failed = False\<rparr> = False \<and>
   (1::rat) < (2 ^ 53 + 2) - 2 ^ 53 \<and>
   getFastestServer
     [\<lparr>server_url = ''A'', lastBlock = Num (2 ^ 53), lastResponseTime = Num 20, failed = False\<rparr>,
      \<lparr>server_url = ''B'', lastBlock = Num (2 ^ 53 + 2), lastResponseTime = Num 200,
         failed = False\<rparr>] (Num 1) =
     \<lparr>fastestServer =
        as_winner \<lparr>server_url = ''A'', lastBlock = Num (2 ^ 53), lastResponseTime = Num 20,
          failed = False\<rparr>,
      index = 0\<rparr>"
  by (simp add: select_step_def getFastestServer_def initial_selection_def as_winner_def
      num_eq_def to_double_tie_numeral)

text \<open>
  C6, amended: a candidate that is not failed and whose \<open>lastBlock\<close> minus the tolerance, as
  the double-precision subtraction computes it, is above the running winner's \<open>lastBlock\<close>
  replaces the winner, whatever the two response times are: in one step of the reduction,
  and so in the selection over a list that ends with the candidate, where the running
  winner is the selection over the elements before it. When the heights and the tolerance
  are integers and the candidate's height minus the tolerance is at most \<open>2\<^sup>5\<^sup>3\<close> in
  magnitude, this is so whenever the candidate's height exceeds the winner's by strictly
  more than the tolerance. In particular, for \<open>A(block=100, rt=20)\<close> and
  \<open>B(block=110, rt=200)\<close> with tolerance 5, neither failed, the selection returns \<open>B\<close>.
\<close>

theorem candidate_ahead_replaces:
  "(\<not> failed item \<and>
    num_less (w_lastBlock (fastestServer result)) (num_sub (lastBlock item) allowedBlocksBehind) \<longrightarrow>
      select_step allowedBlocksBehind result item i =
        \<lparr>fastestServer = as_winner item, index = int i\<rparr>) \<and>
   (\<not> failed item \<and>
    num_less (w_lastBlock (fastestServer (getFastestServer pre allowedBlocksBehind)))
      (num_sub (lastBlock item) allowedBlocksBehind) \<longrightarrow>
      getFastestServer (pre @ [item]) allowedBlocksBehind =
        \<lparr>fastestServer = as_winner item, index = int (length pre)\<rparr>) \<and>
   (\<not> failed item \<and> lastBlock item = Num (of_int c) \<and> allowedBlocksBehind = Num (of_int t) \<and>
    w_lastBlock (fastestServer result) = Num (of_int w) \<and> \<bar>c - t\<bar> \<le> 2 ^ 53 \<and> t < c - w \<longrightarrow>
      select_step allowedBlocksBehind result item i =
        \<lparr>fastestServer = as_winner item, index = int i\<rparr>) \<and>
   getFastestServer
     [\<lparr>server_url = ''A'', lastBlock = Num 100, lastResponseTime = Num 20, failed = False\<rparr>,
      \<lparr>server_url = ''B'', lastBlock = Num 110, lastResponseTime = Num 200, failed = False\<rparr>]
     (Num 5) =
     \<lparr>fastestServer =
        as_winner \<lparr>server_url = ''B'', lastBlock = Num 110, lastResponseTime = Num 200,
          failed = False\<rparr>,
      index = 1\<rparr>"
proof (intro conjI impI)
  assume "\<not> failed item \<and>
    num_less (w_lastBlock (fastestServer result)) (num_sub (lastBlock item) allowedBlocksBehind)"
  then show "select_step allowedBlocksBehind result item i =
        \<lparr>fastestServer = as_winner item, index = int i\<rparr>"
    by (simp add: select_step_def)
next
  assume "\<not> failed item \<and>
    num_less (w_lastBlock (fastestServer (getFastestServer pre allowedBlocksBehind)))
      (num_sub (lastBlock item) allowedBlocksBehind)"
  then show "getFastestServer (pre @ [item]) allowedBlocksBehind =
        \<lparr>fastestServer = as_winner item, index = int (length pre)\<rparr>"
    by (simp add: getFastestServer_snoc select_step_def)
next
  assume h: "\<not> failed item \<and> lastBlock item = Num (of_int c) \<and>
    allowedBlocksBehind = Num (of_int t) \<and>
    w_lastBlock (fastestServer result) = Num (of_int w) \<and> \<bar>c - t\<bar> \<le> 2 ^ 53 \<and> t < c - w"
  then have "num_sub (lastBlock item) allowedBlocksBehind = Num (of_int (c - t))"
    by (simp only: num_sub_safe)
  moreover from h have "(of_int w :: rat) < of_int (c - t)"
    by (simp only: of_int_less_iff) linarith
  ultimately show "select_step allowedBlocksBehind result item i =
        \<lparr>fastestServer = as_winner item, index = int i\<rparr>"
    using h by (simp add: select_step_def)
next
  show "getFastestServer
     [\<lparr>server_url = ''A'', lastBlock = Num 100, lastResponseTime = Num 20, failed = False\<rparr>,
      \<lparr>server_url = ''B'', lastBlock = Num 110, lastResponseTime = Num 200, failed = False\<rparr>]
     (Num 5) =
     \<lparr>fastestServer =
        as_winner \<lparr>server_url = ''B'', lastBlock = Num 110, lastResponseTime = Num 200,
          failed = False\<rparr>,
      index = 1\<rparr>"
    by (simp add: select_step_def getFastestServer_def initial_selection_def as_winner_def)
qed

theorem candidate_ahead_replaces_witness:
  "\<not> failed \<lparr>server_url = ''B'', lastBlock = Num 110, lastResponseTime = Num 200, failed = False\<rparr> \<and>
   num_less (w_lastBlock (fastestServer (getFastestServer
       [\<lparr>server_url = ''A'', lastBlock = Num 100, lastResponseTime = Num 20, failed = False\<rparr>]
       (Num 5))))
     (num_sub (Num 110) (Num 5)) \<and>
   \<bar>110 - 5\<bar> \<le> (2::int) ^ 53 \<and> (5::int) < 110 - 100 \<and>
   select_step (Num 5)
     (getFastestServer
       [\<lparr>server_url = ''A'', lastBlock = Num 100, lastResponseTime = Num 20, failed = False\<rparr>]
       (Num 5))
     \<lparr>server_url = ''B'', lastBlock = Num 110, lastResponseTime = Num 200, failed = False\<rparr> 1 =
     \<lparr>fastestServer =
        as_winner \<lparr>server_url = ''B'', lastBlock = Num 110, lastResponseTime = Num 200,
          failed = False\<rparr>,
      index = 1\<rparr> \<and>
   getFastestServer
     ([\<lparr>server_url = ''A'', lastBlock = Num 100, lastResponseTime = Num 20, failed = False\<rparr>] @
      [\<lparr>server_url = ''B'', lastBlock = Num 110, lastResponseTime = Num 200, failed = False\<rparr>])
     (Num 5) =
     \<lparr>fastestServer =
        as_winner \<lparr>server_url = ''B'', lastBlock = Num 110, lastResponseTime = Num 200,
          failed = False\<rparr>,
      index = 1\<rparr>"
proof -
  let ?A = "\<lparr>server_url = ''A'', lastBlock = Num 100, lastResponseTime = Num 20, failed = False\<rparr>"
  let ?B = "\<lparr>server_url = ''B'', lastBlock = Num 110, lastResponseTime = Num 200, failed = False\<rparr>"
  have w: "w_lastBlock (fastestServer (getFastestServer [?A] (Num 5))) = Num (of_int 100)"
    by (simp add: getFastestServer_def select_step_def initial_selection_def as_winner_def)
  have h: "\<not> failed ?B \<and>
     num_less (w_lastBlock (fastestServer (getFastestServer [?A] (Num 5))))
       (num_sub (lastBlock ?B) (Num 5))"
    by (simp add: w)
  have s: "lastBlock ?B = Num (of_int 110) \<and> Num 5 = Num (of_int 5) \<and>
     \<bar>110 - 5\<bar> \<le> (2::int) ^ 53 \<and> (5::int) < 110 - 100"
    by simp
  note T = candidate_ahead_replaces [of ?B "getFastestServer [?A] (Num 5)" "Num 5" 1 "[?A]" 110 5 100]
  have c1: "select_step (Num 5) (getFastestServer [?A] (Num 5)) ?B 1 =
      \<lparr>fastestServer = as_winner ?B, index = int 1\<rparr>"
    by (rule T [THEN conjunct1, THEN mp, OF h])
  have c2: "getFastestServer ([?A] @ [?B]) (Num 5) =
      \<lparr>fastestServer = as_winner ?B, index = int (length [?A])\<rparr>"
    by (rule T [THEN conjunct2, THEN conjunct1, THEN mp, OF h])
  have "\<not> failed ?B \<and> lastBlock ?B = Num (of_int 110) \<and> Num 5 = Num (of_int 5) \<and>
      w_lastBlock (fastestServer (getFastestServer [?A] (Num 5))) = Num (of_int 100) \<and>
      \<bar>110 - 5\<bar> \<le> (2::int) ^ 53 \<and> (5::int) < 110 - 100"
    using s w by simp
  note c3 = T [THEN conjunct2, THEN conjunct2, THEN conjunct1, THEN mp, OF this]
  have n: "num_less (w_lastBlock (fastestServer (getFastestServer [?A] (Num 5))))
      (num_sub (Num 110) (Num 5))"
    using h by simp
  have b: "\<not> failed ?B" by simp
  have a: "\<bar>110 - 5\<bar> \<le> (2::int) ^ 53 \<and> (5::int) < 110 - 100" by simp
  from c1 c3 have c1': "select_step (Num 5) (getFastestServer [?A] (Num 5)) ?B 1 =
      \<lparr>fastestServer = as_winner ?B, index = 1\<rparr>" by simp
  from c2 have c2': "getFastestServer ([?A] @ [?B]) (Num 5) =
      \<lparr>fastestServer = as_winner ?B, index = 1\<rparr>" by simp
  from b n a c1' c2' show ?thesis by blast
qed

text \<open>
  The selection finds nothing exactly when no endpoint that is not failed beats the
  initial accumulator. A finite height that is not below a finite tolerance beats it; a
  \<^verbatim>\<open>NaN\<close> height never does.
\<close>

lemma select_step_initial:
  "select_step a initial_selection item i =
     (if \<not> failed item \<and> pickable a item
      then \<lparr>fastestServer = as_winner item, index = int i\<rparr> else initial_selection)"
  by (simp add: select_step_def pickable_def initial_selection_def)

lemma reduce_index_nonneg:
  "0 \<le> index sel \<Longrightarrow> 0 \<le> index (reduce (select_step a) xs i sel)"
  by (induction xs arbitrary: i sel) (auto simp: select_step_def Let_def)

lemma reduce_none_pickable:
  "\<forall>s\<in>set xs. failed s \<or> \<not> pickable a s \<Longrightarrow>
     reduce (select_step a) xs i initial_selection = initial_selection"
  by (induction xs arbitrary: i) (auto simp: select_step_initial)

lemma reduce_some_pickable:
  "\<exists>s\<in>set xs. \<not> failed s \<and> pickable a s \<Longrightarrow>
     0 \<le> index (reduce (select_step a) xs i initial_selection)"
proof (induction xs arbitrary: i)
  case Nil
  then show ?case by simp
next
  case (Cons x xs)
  show ?case
  proof (cases "\<not> failed x \<and> pickable a x")
    case True
    then have "select_step a initial_selection x i =
        \<lparr>fastestServer = as_winner x, index = int i\<rparr>"
      by (simp add: select_step_initial)
    then show ?thesis
      using reduce_index_nonneg [of "\<lparr>fastestServer = as_winner x, index = int i\<rparr>"] by simp
  next
    case False
    then have "select_step a initial_selection x i = initial_selection"
      by (simp only: select_step_initial if_False)
    with Cons False show ?thesis by auto
  qed
qed

lemma getFastestServer_none_iff:
  "index (getFastestServer servers a) = -1 \<longleftrightarrow> (\<forall>s\<in>set servers. failed s \<or> \<not> pickable a s)"
proof
  assume "index (getFastestServer servers a) = -1"
  then show "\<forall>s\<in>set servers. failed s \<or> \<not> pickable a s"
    using reduce_some_pickable [of servers a 0]
    by (auto simp: getFastestServer_def)
next
  assume "\<forall>s\<in>set servers. failed s \<or> \<not> pickable a s"
  then show "index (getFastestServer servers a) = -1"
    by (simp add: getFastestServer_def reduce_none_pickable) (simp add: initial_selection_def)
qed

lemma pickable_finite:
  "lastBlock s = Num h \<Longrightarrow> a = Num t \<Longrightarrow> t \<le> h \<Longrightarrow> pickable a s"
  by (simp add: pickable_def to_double_nonneg)

lemma pickable_safe:
  "lastBlock s = Num (of_int c) \<Longrightarrow> a = Num (of_int d) \<Longrightarrow> \<bar>c - d\<bar> \<le> 2 ^ 53 \<Longrightarrow> pickable a s"
  by (simp only: pickable_def num_sub_safe num_less.simps) simp

lemma not_pickable_NaN: "lastBlock s = NaN \<Longrightarrow> \<not> pickable a s"
  by (simp add: pickable_def num_eq_def)

text \<open>The definitions a concrete call unfolds to.\<close>

lemmas eval_defs =
  handleFailedRpcCall_def getActiveIndex_def getActiveUrl_def getFastestServer_def select_step_def
  initial_selection_def as_winner_def num_eq_def two_pools_def endpoint_def active_at_def Let_def
  resolveUrl_def getActiveArchiveUrlWithFallback_def getActiveNormalUrlWithFallback_def

section \<open>Failover\<close>

text \<open>
  C10: when \<open>handleFailedRpcCall\<close> completes without throwing, the endpoint that was
  active for the kind is marked failed and the new active entry of the kind names a
  different position, whose endpoint is not failed; when it throws, whatever the throw
  site, the active entries are the ones it started with.
\<close>

theorem handleFailedRpcCall_effect:
  "handleFailedRpcCall allowedBlocksBehind e kind st = (thrown, st') \<Longrightarrow>
     (thrown = None \<longrightarrow>
        (\<exists>old new. activeUrl st kind = Some old \<and> activeUrl st' kind = Some new \<and>
           0 \<le> active_index old \<and> nat (active_index old) < length (rpcUrls st' kind) \<and>
           failed (rpcUrls st' kind ! nat (active_index old)) \<and>
           active_index new \<noteq> active_index old \<and>
           0 \<le> active_index new \<and> nat (active_index new) < length (rpcUrls st' kind) \<and>
           \<not> failed (rpcUrls st' kind ! nat (active_index new)))) \<and>
     (thrown \<noteq> None \<longrightarrow> activeUrl st' = activeUrl st)"
proof (cases thrown)
  case None
  assume "handleFailedRpcCall allowedBlocksBehind e kind st = (thrown, st')"
  with None have ok: "handleFailedRpcCall allowedBlocksBehind e kind st = (None, st')" by simp
  then obtain act sel where
    act: "activeUrl st kind = Some act" "0 \<le> active_index act"
      "nat (active_index act) < length (rpcUrls st kind)" and
    sel: "sel = getFastestServer ((rpcUrls st kind)[nat (active_index act) :=
             (rpcUrls st kind ! nat (active_index act))\<lparr>failed := True\<rparr>]) allowedBlocksBehind"
      "index sel \<noteq> -1" and
    st': "st' = \<lparr>rpcUrls = (rpcUrls st)(kind := (rpcUrls st kind)[nat (active_index act) :=
                (rpcUrls st kind ! nat (active_index act))\<lparr>failed := True\<rparr>]),
            activeUrl = (activeUrl st)(kind :=
                Some \<lparr>active_url = w_url (fastestServer sel), active_index = index sel\<rparr>)\<rparr>"
    by (rule handleFailedRpcCall_None)
  let ?i = "nat (active_index act)"
  let ?ys = "(rpcUrls st kind)[?i := (rpcUrls st kind ! ?i)\<lparr>failed := True\<rparr>]"
  from sel have chosen: "selects ?ys sel" using getFastestServer_selected by blast
  have marked: "failed (?ys ! ?i)" using act(3) by simp
  from chosen marked have "nat (index sel) \<noteq> ?i" by (auto simp: selects_def)
  with act(2) chosen have differ: "index sel \<noteq> active_index act" by (auto simp: selects_def)
  from chosen have new: "0 \<le> index sel" "nat (index sel) < length ?ys" "\<not> failed (?ys ! nat (index sel))"
    by (simp_all add: selects_def)
  have "rpcUrls st' kind = ?ys" "activeUrl st' kind =
      Some \<lparr>active_url = w_url (fastestServer sel), active_index = index sel\<rparr>"
    by (simp_all add: st')
  with act marked differ new None show ?thesis by simp
next
  case (Some err)
  assume "handleFailedRpcCall allowedBlocksBehind e kind st = (thrown, st')"
  with Some have "activeUrl st' = activeUrl st"
    by (auto simp: handleFailedRpcCall_def Let_def split: option.splits if_splits)
  with Some show ?thesis by simp
qed

theorem handleFailedRpcCall_effect_witness:
  "fst (handleFailedRpcCall (Num 5) ''down'' ARCHIVE two_pools) = None \<and>
   activeUrl (snd (handleFailedRpcCall (Num 5) ''down'' ARCHIVE two_pools)) ARCHIVE = active_at ''https://a1'' 1 \<and>
   failed (rpcUrls (snd (handleFailedRpcCall (Num 5) ''down'' ARCHIVE two_pools)) ARCHIVE ! 0) \<and>
   \<not> failed (rpcUrls (snd (handleFailedRpcCall (Num 5) ''down'' ARCHIVE two_pools)) ARCHIVE ! 1) \<and>
   fst (handleFailedRpcCall (Num 5) ''down'' NORMAL two_pools) \<noteq> None \<and>
   activeUrl (snd (handleFailedRpcCall (Num 5) ''down'' NORMAL two_pools)) = activeUrl two_pools"
proof -
  have a: "fst (handleFailedRpcCall (Num 5) ''down'' ARCHIVE two_pools) = None"
    by (simp add: eval_defs)
  have n: "fst (handleFailedRpcCall (Num 5) ''down'' NORMAL two_pools) \<noteq> None"
    by (simp add: eval_defs)
  have new: "activeUrl (snd (handleFailedRpcCall (Num 5) ''down'' ARCHIVE two_pools)) ARCHIVE =
      active_at ''https://a1'' 1"
    by (simp add: eval_defs)
  have old: "activeUrl two_pools ARCHIVE = active_at ''https://a0'' 0"
    by (simp add: two_pools_def)
  from handleFailedRpcCall_effect [OF prod.collapse [symmetric], of "Num 5" "''down''" ARCHIVE two_pools]
    handleFailedRpcCall_effect [OF prod.collapse [symmetric], of "Num 5" "''down''" NORMAL two_pools]
    a n new old
  show ?thesis by (auto simp: active_at_def)
qed

section \<open>URL resolution of the dispatcher\<close>

lemmas call_defs = rawRpcCall.simps always_down_def down_at_def sample_request_def

lemmas state_defs = two_pools_def archive_only_def normal_only_def initial_state_def
  endpoint_def active_at_def has_active_url_def getActiveUrl_def

lemma rawRpcCall_unresolved:
  "resolveUrl st archive = Inl err \<Longrightarrow> rawRpcCall c a n st rq archive = (Inl err, st, [])"
  by (simp add: rawRpcCall.simps)

lemma rawRpcCall_first_attempt:
  "resolveUrl st archive = Inr (url, k) \<Longrightarrow>
     \<exists>rest. snd (snd (rawRpcCall c a n st rq archive)) =
       \<lparr>at_url = url, at_type = k, at_request = rq, at_archive = archive\<rparr> # rest"
  by (subst rawRpcCall.simps) (auto simp: Let_def split: sum.splits option.splits prod.splits)

lemma resolveUrl_cases:
  "resolveUrl st archive =
     (if archive
      then (if has_active_url st ARCHIVE then Inr (the (fst (getActiveUrl st ARCHIVE)), ARCHIVE)
            else if has_active_url st NORMAL then Inr (the (fst (getActiveUrl st NORMAL)), NORMAL)
            else Inl NoActiveNode)
      else (if has_active_url st NORMAL then Inr (the (fst (getActiveUrl st NORMAL)), NORMAL)
            else if has_active_url st ARCHIVE then Inr (the (fst (getActiveUrl st ARCHIVE)), ARCHIVE)
            else Inl NoActiveNode))"
  by (simp add: resolveUrl_def getActiveArchiveUrlWithFallback_def
      getActiveNormalUrlWithFallback_def has_active_url_def Let_def)

lemma has_active_url_Some:
  "activeUrl st k = Some a \<Longrightarrow> has_active_url st k = (active_url a \<noteq> [])"
  by (simp add: has_active_url_def getActiveUrl_def)

lemma active_url_resolved:
  "activeUrl st k = Some a \<Longrightarrow> the (fst (getActiveUrl st k)) = active_url a"
  by (simp add: getActiveUrl_def)

text \<open>
  C7: with \<open>archive\<close> true the first request of \<open>rawRpcCall\<close> goes to the ARCHIVE
  active URL if one is set and otherwise to the NORMAL active URL; with \<open>archive\<close> false
  it goes to the NORMAL active URL if one is set and otherwise to the ARCHIVE one; if
  neither kind has an active URL the call fails with \<open>NoActiveNode\<close> and no request is
  made. A URL is set when the entry exists and its URL is not the empty string, which is
  the test the resolver makes.
\<close>

theorem rawRpcCall_resolution:
  "(activeUrl st ARCHIVE = Some a \<and> active_url a \<noteq> [] \<longrightarrow>
      (\<exists>rest. snd (snd (rawRpcCall connector allowed n st rq True)) =
         \<lparr>at_url = active_url a, at_type = ARCHIVE, at_request = rq, at_archive = True\<rparr> # rest)) \<and>
   (\<not> has_active_url st ARCHIVE \<and> activeUrl st NORMAL = Some b \<and> active_url b \<noteq> [] \<longrightarrow>
      (\<exists>rest. snd (snd (rawRpcCall connector allowed n st rq True)) =
         \<lparr>at_url = active_url b, at_type = NORMAL, at_request = rq, at_archive = True\<rparr> # rest)) \<and>
   (activeUrl st NORMAL = Some b \<and> active_url b \<noteq> [] \<longrightarrow>
      (\<exists>rest. snd (snd (rawRpcCall connector allowed n st rq False)) =
         \<lparr>at_url = active_url b, at_type = NORMAL, at_request = rq, at_archive = False\<rparr> # rest)) \<and>
   (\<not> has_active_url st NORMAL \<and> activeUrl st ARCHIVE = Some a \<and> active_url a \<noteq> [] \<longrightarrow>
      (\<exists>rest. snd (snd (rawRpcCall connector allowed n st rq False)) =
         \<lparr>at_url = active_url a, at_type = ARCHIVE, at_request = rq, at_archive = False\<rparr> # rest)) \<and>
   (\<not> has_active_url st NORMAL \<and> \<not> has_active_url st ARCHIVE \<longrightarrow>
      rawRpcCall connector allowed n st rq archive = (Inl NoActiveNode, st, []))"
proof (intro conjI impI)
  assume h: "activeUrl st ARCHIVE = Some a \<and> active_url a \<noteq> []"
  then have "resolveUrl st True = Inr (active_url a, ARCHIVE)"
    by (simp add: resolveUrl_cases has_active_url_Some active_url_resolved)
  then show "\<exists>rest. snd (snd (rawRpcCall connector allowed n st rq True)) =
         \<lparr>at_url = active_url a, at_type = ARCHIVE, at_request = rq, at_archive = True\<rparr> # rest"
    by (rule rawRpcCall_first_attempt)
next
  assume h: "\<not> has_active_url st ARCHIVE \<and> activeUrl st NORMAL = Some b \<and> active_url b \<noteq> []"
  then have "resolveUrl st True = Inr (active_url b, NORMAL)"
    by (simp add: resolveUrl_cases has_active_url_Some active_url_resolved)
  then show "\<exists>rest. snd (snd (rawRpcCall connector allowed n st rq True)) =
         \<lparr>at_url = active_url b, at_type = NORMAL, at_request = rq, at_archive = True\<rparr> # rest"
    by (rule rawRpcCall_first_attempt)
next
  assume h: "activeUrl st NORMAL = Some b \<and> active_url b \<noteq> []"
  then have "resolveUrl st False = Inr (active_url b, NORMAL)"
    by (simp add: resolveUrl_cases has_active_url_Some active_url_resolved)
  then show "\<exists>rest. snd (snd (rawRpcCall connector allowed n st rq False)) =
         \<lparr>at_url = active_url b, at_type = NORMAL, at_request = rq, at_archive = False\<rparr> # rest"
    by (rule rawRpcCall_first_attempt)
next
  assume h: "\<not> has_active_url st NORMAL \<and> activeUrl st ARCHIVE = Some a \<and> active_url a \<noteq> []"
  then have "resolveUrl st False = Inr (active_url a, ARCHIVE)"
    by (simp add: resolveUrl_cases has_active_url_Some active_url_resolved)
  then show "\<exists>rest. snd (snd (rawRpcCall connector allowed n st rq False)) =
         \<lparr>at_url = active_url a, at_type = ARCHIVE, at_request = rq, at_archive = False\<rparr> # rest"
    by (rule rawRpcCall_first_attempt)
next
  assume "\<not> has_active_url st NORMAL \<and> \<not> has_active_url st ARCHIVE"
  then have "resolveUrl st archive = Inl NoActiveNode"
    by (simp add: resolveUrl_cases)
  then show "rawRpcCall connector allowed n st rq archive = (Inl NoActiveNode, st, [])"
    by (rule rawRpcCall_unresolved)
qed

theorem rawRpcCall_resolution_witness:
  "(\<exists>rest. snd (snd (rawRpcCall always_down (Num 5) 0 two_pools sample_request True)) =
      \<lparr>at_url = ''https://a0'', at_type = ARCHIVE, at_request = sample_request, at_archive = True\<rparr> # rest) \<and>
   (\<exists>rest. snd (snd (rawRpcCall always_down (Num 5) 0 normal_only sample_request True)) =
      \<lparr>at_url = ''https://y'', at_type = NORMAL, at_request = sample_request, at_archive = True\<rparr> # rest) \<and>
   (\<exists>rest. snd (snd (rawRpcCall always_down (Num 5) 0 two_pools sample_request False)) =
      \<lparr>at_url = ''https://n0'', at_type = NORMAL, at_request = sample_request, at_archive = False\<rparr> # rest) \<and>
   (\<exists>rest. snd (snd (rawRpcCall always_down (Num 5) 0 archive_only sample_request False)) =
      \<lparr>at_url = ''https://x'', at_type = ARCHIVE, at_request = sample_request, at_archive = False\<rparr> # rest) \<and>
   rawRpcCall always_down (Num 5) 0 initial_state sample_request True = (Inl NoActiveNode, initial_state, [])"
proof -
  let ?a0 = "\<lparr>active_url = ''https://a0'', active_index = 0\<rparr>"
  let ?n0 = "\<lparr>active_url = ''https://n0'', active_index = 0\<rparr>"
  let ?x = "\<lparr>active_url = ''https://x'', active_index = 0\<rparr>"
  let ?y = "\<lparr>active_url = ''https://y'', active_index = 0\<rparr>"
  have h1: "activeUrl two_pools ARCHIVE = Some ?a0 \<and> active_url ?a0 \<noteq> []"
    by (simp add: state_defs)
  have h2: "\<not> has_active_url normal_only ARCHIVE \<and> activeUrl normal_only NORMAL = Some ?y \<and>
      active_url ?y \<noteq> []"
    by (simp add: state_defs)
  have h3: "activeUrl two_pools NORMAL = Some ?n0 \<and> active_url ?n0 \<noteq> []"
    by (simp add: state_defs)
  have h4: "\<not> has_active_url archive_only NORMAL \<and> activeUrl archive_only ARCHIVE = Some ?x \<and>
      active_url ?x \<noteq> []"
    by (simp add: state_defs)
  have h5: "\<not> has_active_url initial_state NORMAL \<and> \<not> has_active_url initial_state ARCHIVE"
    by (simp add: state_defs)
  from rawRpcCall_resolution [of two_pools ?a0 always_down "Num 5" 0 sample_request ?n0 True] h1 h3
    rawRpcCall_resolution [of normal_only ?a0 always_down "Num 5" 0 sample_request ?y True] h2
    rawRpcCall_resolution [of archive_only ?x always_down "Num 5" 0 sample_request ?y True] h4
    rawRpcCall_resolution [of initial_state ?x always_down "Num 5" 0 sample_request ?y True] h5
  show ?thesis by simp
qed

section \<open>Pool exhaustion\<close>

lemma handleFailedRpcCall_exhausted:
  "handleFailedRpcCall al e k st = (Some (AllNodesUnavailable e'), st1) \<Longrightarrow>
     \<forall>s\<in>set (rpcUrls st1 k). failed s \<or> \<not> pickable al s"
  by (auto simp: handleFailedRpcCall_def Let_def getFastestServer_none_iff
      split: option.splits if_splits)

lemma resolveUrl_error: "resolveUrl st ar = Inl err \<Longrightarrow> err = NoActiveNode"
  by (simp add: resolveUrl_cases split: if_splits)

lemma rawRpcCall_exhausted:
  "rawRpcCall c al n st rq ar = (Inl (AllNodesUnavailable e), st', atts) \<Longrightarrow>
     atts \<noteq> [] \<and> (\<forall>s\<in>set (rpcUrls st' (at_type (last atts))). failed s \<or> \<not> pickable al s)"
proof (induction c al n st rq ar arbitrary: atts rule: rawRpcCall.induct)
  case (1 c al n st rq ar)
  from "1.prems" obtain url k where res: "resolveUrl st ar = Inr (url, k)"
    by (subst (asm) rawRpcCall.simps) (auto split: sum.splits dest: resolveUrl_error)
  let ?att = "\<lparr>at_url = url, at_type = k, at_request = rq, at_archive = ar\<rparr>"
  from "1.prems" res obtain e1 where conn: "c n url rq = Inl e1"
    by (subst (asm) rawRpcCall.simps) (auto simp: Let_def split: sum.splits)
  obtain thrown st1 where h: "handleFailedRpcCall al e1 k st = (thrown, st1)"
    by (cases "handleFailedRpcCall al e1 k st")
  show ?case
  proof (cases thrown)
    case None
    obtain res2 st2 atts2 where
      rec: "rawRpcCall c al (Suc n) st1 rq False = (res2, st2, atts2)"
      by (cases "rawRpcCall c al (Suc n) st1 rq False")
    from "1.prems" res conn h None rec
    have eq: "res2 = Inl (AllNodesUnavailable e)" "st2 = st'" "atts = ?att # atts2"
      by (subst (asm) rawRpcCall.simps, simp)+
    from "1.IH" [OF res refl refl conn _ None, of st1 atts2] h rec eq
    have "atts2 \<noteq> [] \<and>
        (\<forall>s\<in>set (rpcUrls st' (at_type (last atts2))). failed s \<or> \<not> pickable al s)"
      by simp
    with eq show ?thesis by simp
  next
    case (Some err)
    from "1.prems" res conn h Some
    have eq: "err = AllNodesUnavailable e" "st1 = st'" "atts = [?att]"
      by (subst (asm) rawRpcCall.simps, simp)+
    with h Some handleFailedRpcCall_exhausted [of al e1 k st e st']
    show ?thesis by simp
  qed
qed

lemma rawRpcCall_fails_over:
  assumes res: "resolveUrl st ar = Inr (url, k)" and conn: "c n url rq = Inl e"
    and act: "activeUrl st k = Some act" "0 \<le> active_index act"
      "nat (active_index act) < length (rpcUrls st k)"
    and j: "j < length (rpcUrls st k)" "j \<noteq> nat (active_index act)" "\<not> failed (rpcUrls st k ! j)"
      "pickable al (rpcUrls st k ! j)"
  shows "\<exists>st1. handleFailedRpcCall al e k st = (None, st1) \<and>
           rawRpcCall c al n st rq ar =
             (case rawRpcCall c al (Suc n) st1 rq False of
                (res, st2, atts) \<Rightarrow>
                  (res, st2, \<lparr>at_url = url, at_type = k, at_request = rq, at_archive = ar\<rparr> # atts))"
proof -
  let ?i = "nat (active_index act)"
  let ?ys = "(rpcUrls st k)[?i := (rpcUrls st k ! ?i)\<lparr>failed := True\<rparr>]"
  from j have len: "j < length ?ys" and live: "\<not> failed (?ys ! j) \<and> pickable al (?ys ! j)"
    by simp_all
  from len have "?ys ! j \<in> set ?ys" by (rule nth_mem)
  with live have "\<exists>s\<in>set ?ys. \<not> failed s \<and> pickable al s" by blast
  then have "\<not> (\<forall>s\<in>set ?ys. failed s \<or> \<not> pickable al s)" by blast
  then have found: "index (getFastestServer ?ys al) \<noteq> -1"
    by (simp only: getFastestServer_none_iff not_False_eq_True)
  from act found obtain st1 where h: "handleFailedRpcCall al e k st = (None, st1)"
    by (simp add: handleFailedRpcCall_def getActiveIndex_def Let_def)
  from res conn h show ?thesis
    by (subst rawRpcCall.simps) simp
qed

text \<open>
  C2 as stated fails: with the NORMAL endpoint down and both ARCHIVE endpoints live, a
  call that resolved to NORMAL raises the pool-exhaustion error after one attempt.
\<close>

theorem rawRpcCall_raises_with_live_archive:
  "fst (rawRpcCall always_down (Num 5) 0 two_pools sample_request False) =
     Inl (AllNodesUnavailable ''down'') \<and>
   failed (rpcUrls (fst (snd (rawRpcCall always_down (Num 5) 0 two_pools sample_request False)))
     ARCHIVE ! 0) = False \<and>
   snd (snd (rawRpcCall always_down (Num 5) 0 two_pools sample_request False)) =
     [\<lparr>at_url = ''https://n0'', at_type = NORMAL, at_request = sample_request, at_archive = False\<rparr>]"
  by (simp add: call_defs eval_defs)

text \<open>
  A probe whose response is \<^verbatim>\<open>ok\<close> and has a truthy result that \<^verbatim>\<open>BigNumber\<close> reads as
  \<^verbatim>\<open>NaN\<close> leaves the endpoint not failed, with the height \<^verbatim>\<open>NaN\<close>.
\<close>

lemma probe_update_unparsed:
  "isEvmBasedNetwork dto network \<Longrightarrow> s \<noteq> [] \<Longrightarrow> bignumber s = NaN \<Longrightarrow>
     probe_update dto bignumber network (Responded rt (Body True (JString s))) server =
       server\<lparr>lastResponseTime := rt, failed := False, lastBlock := NaN\<rparr>"
  by (simp add: probe_update_def parseStatusPayload_def)

text \<open>
  An endpoint of the serving kind that is not marked failed does not keep the call from
  raising when its height is \<^verbatim>\<open>NaN\<close>: the selection never picks it.
\<close>

lemma rawRpcCall_raises_with_unparsed_height:
  "fst (rawRpcCall always_down (Num 5) 0 unparsed_pool sample_request False) =
     Inl (AllNodesUnavailable ''down'') \<and>
   failed (rpcUrls (fst (snd (rawRpcCall always_down (Num 5) 0 unparsed_pool sample_request False)))
     NORMAL ! 0) = False \<and>
   snd (snd (rawRpcCall always_down (Num 5) 0 unparsed_pool sample_request False)) =
     [\<lparr>at_url = ''https://n1'', at_type = NORMAL, at_request = sample_request, at_archive = False\<rparr>]"
  by (simp add: call_defs eval_defs unparsed_pool_def)

text \<open>
  C2, amended: \<open>rawRpcCall\<close> raises its pool-exhaustion error only when the selection finds
  nothing among the endpoints of the kind that served the last attempt: each of them is
  marked failed or has a height that does not beat the initial accumulator (the other kind
  is not looked at). When an attempt fails and some endpoint of the serving kind other
  than the active one is not failed and has a height that beats the initial accumulator,
  the attempt does not raise: the failover succeeds and the call goes on with the retry.
  A finite height beats the initial accumulator when it is not below a finite tolerance,
  and when both are integers that differ by at most \<open>2\<^sup>5\<^sup>3\<close>; a \<^verbatim>\<open>NaN\<close> height, which a
  probe stores when the result does not read as a number, never does.
\<close>

theorem rawRpcCall_exhaustion_per_kind:
  "(rawRpcCall connector allowed n st rq archive = (Inl (AllNodesUnavailable e), st', atts) \<longrightarrow>
      atts \<noteq> [] \<and>
      (\<forall>s\<in>set (rpcUrls st' (at_type (last atts))). failed s \<or> \<not> pickable allowed s)) \<and>
   (resolveUrl st archive = Inr (url, k) \<and> connector n url rq = Inl e1 \<and>
    activeUrl st k = Some act \<and> 0 \<le> active_index act \<and>
    nat (active_index act) < length (rpcUrls st k) \<and>
    j < length (rpcUrls st k) \<and> j \<noteq> nat (active_index act) \<and> \<not> failed (rpcUrls st k ! j) \<and>
    pickable allowed (rpcUrls st k ! j) \<longrightarrow>
      (\<exists>st1. handleFailedRpcCall allowed e1 k st = (None, st1) \<and>
         rawRpcCall connector allowed n st rq archive =
           (case rawRpcCall connector allowed (Suc n) st1 rq False of
              (res, st2, rest) \<Rightarrow>
                (res, st2,
                 \<lparr>at_url = url, at_type = k, at_request = rq, at_archive = archive\<rparr> # rest)))) \<and>
   (lastBlock s = Num h \<and> allowed = Num t \<and> t \<le> h \<longrightarrow> pickable allowed s) \<and>
   (lastBlock s = Num (of_int c) \<and> allowed = Num (of_int d) \<and> \<bar>c - d\<bar> \<le> 2 ^ 53 \<longrightarrow>
      pickable allowed s) \<and>
   (lastBlock s = NaN \<longrightarrow> \<not> pickable allowed s)"
  using rawRpcCall_exhausted [of connector allowed n st rq archive e st' atts]
    rawRpcCall_fails_over [of st archive url k connector n rq e1 act j allowed]
    pickable_finite [of s h allowed t] pickable_safe [of s c allowed d]
    not_pickable_NaN [of s allowed]
  by blast

theorem rawRpcCall_exhaustion_per_kind_witness:
  "fst (rawRpcCall always_down (Num 5) 0 unparsed_pool sample_request False) =
     Inl (AllNodesUnavailable ''down'') \<and>
   snd (snd (rawRpcCall always_down (Num 5) 0 unparsed_pool sample_request False)) \<noteq> [] \<and>
   list_all (\<lambda>s. failed s \<or> \<not> pickable (Num 5) s)
     (rpcUrls (fst (snd (rawRpcCall always_down (Num 5) 0 unparsed_pool sample_request False)))
       (at_type (last (snd (snd
          (rawRpcCall always_down (Num 5) 0 unparsed_pool sample_request False)))))) \<and>
   resolveUrl two_pools True = Inr (''https://a0'', ARCHIVE) \<and>
   always_down 0 ''https://a0'' sample_request = Inl ''down'' \<and>
   failed (rpcUrls two_pools ARCHIVE ! 1) = False \<and>
   pickable (Num 5) (rpcUrls two_pools ARCHIVE ! 1) \<and>
   (\<exists>st1. handleFailedRpcCall (Num 5) ''down'' ARCHIVE two_pools = (None, st1) \<and>
      rawRpcCall always_down (Num 5) 0 two_pools sample_request True =
        (case rawRpcCall always_down (Num 5) (Suc 0) st1 sample_request False of
           (res, st2, rest) \<Rightarrow>
             (res, st2,
              \<lparr>at_url = ''https://a0'', at_type = ARCHIVE, at_request = sample_request,
                at_archive = True\<rparr> # rest))) \<and>
   pickable (Num 5)
     \<lparr>server_url = ''https://b'', lastBlock = Num 120, lastResponseTime = Num 40, failed = False\<rparr> \<and>
   lastBlock (rpcUrls unparsed_pool NORMAL ! 0) = NaN \<and>
   pickable (Num 5) (rpcUrls unparsed_pool NORMAL ! 0) = False"
proof -
  let ?r = "rawRpcCall always_down (Num 5) 0 unparsed_pool sample_request False"
  let ?a0 = "\<lparr>active_url = ''https://a0'', active_index = 0\<rparr>"
  let ?b = "\<lparr>server_url = ''https://b'', lastBlock = Num 120, lastResponseTime = Num 40,
    failed = False\<rparr>"
  have raised: "fst ?r = Inl (AllNodesUnavailable ''down'')"
    by (simp add: call_defs eval_defs unparsed_pool_def)
  then have a: "?r = (Inl (AllNodesUnavailable ''down''), fst (snd ?r), snd (snd ?r))"
    by (metis prod.collapse)
  from rawRpcCall_exhaustion_per_kind [of always_down "Num 5" 0 unparsed_pool sample_request False
      "''down''" "fst (snd ?r)" "snd (snd ?r)"] a
  have first: "snd (snd ?r) \<noteq> [] \<and>
      (\<forall>s\<in>set (rpcUrls (fst (snd ?r)) (at_type (last (snd (snd ?r))))).
         failed s \<or> \<not> pickable (Num 5) s)"
    by blast
  have safe: "lastBlock (rpcUrls two_pools ARCHIVE ! 1) = Num (of_int 0) \<and>
      Num 5 = Num (of_int 5) \<and> \<bar>0 - 5\<bar> \<le> (2::int) ^ 53"
    by (simp add: two_pools_def endpoint_def)
  from rawRpcCall_exhaustion_per_kind [where allowed = "Num 5" and
      s = "rpcUrls two_pools ARCHIVE ! 1" and c = 0 and d = 5] safe
  have p: "pickable (Num 5) (rpcUrls two_pools ARCHIVE ! 1)"
    by blast
  have b: "resolveUrl two_pools True = Inr (''https://a0'', ARCHIVE) \<and>
      always_down 0 ''https://a0'' sample_request = Inl ''down'' \<and>
      activeUrl two_pools ARCHIVE = Some ?a0 \<and> 0 \<le> active_index ?a0 \<and>
      nat (active_index ?a0) < length (rpcUrls two_pools ARCHIVE) \<and>
      1 < length (rpcUrls two_pools ARCHIVE) \<and> 1 \<noteq> nat (active_index ?a0) \<and>
      \<not> failed (rpcUrls two_pools ARCHIVE ! 1)"
    by (simp add: eval_defs always_down_def)
  from rawRpcCall_exhaustion_per_kind [of always_down "Num 5" 0 two_pools sample_request True
      "''down''" two_pools "[]" "''https://a0''" ARCHIVE "''down''" ?a0 1] b p
  have second: "\<exists>st1. handleFailedRpcCall (Num 5) ''down'' ARCHIVE two_pools = (None, st1) \<and>
      rawRpcCall always_down (Num 5) 0 two_pools sample_request True =
        (case rawRpcCall always_down (Num 5) (Suc 0) st1 sample_request False of
           (res, st2, rest) \<Rightarrow>
             (res, st2,
              \<lparr>at_url = ''https://a0'', at_type = ARCHIVE, at_request = sample_request,
                at_archive = True\<rparr> # rest))"
    by blast
  have fin: "lastBlock ?b = Num 120 \<and> Num 5 = Num 5 \<and> (5::rat) \<le> 120" by simp
  from rawRpcCall_exhaustion_per_kind [where allowed = "Num 5" and s = ?b and h = 120 and t = 5] fin
  have third: "pickable (Num 5) ?b" by blast
  have nan: "lastBlock (rpcUrls unparsed_pool NORMAL ! 0) = NaN"
    by (simp add: unparsed_pool_def)
  from rawRpcCall_exhaustion_per_kind [where allowed = "Num 5" and
      s = "rpcUrls unparsed_pool NORMAL ! 0"] nan
  have fourth: "\<not> pickable (Num 5) (rpcUrls unparsed_pool NORMAL ! 0)" by blast
  from raised first b p second third nan fourth show ?thesis by (simp add: list_all_iff)
qed

section \<open>The retry and the archive flag\<close>

text \<open>
  C3: an archive call whose ARCHIVE endpoint fails is retried with the same request, but
  not ARCHIVE-first: the recursive call passes no \<open>archive\<close> argument, so although the
  failover has made the second ARCHIVE endpoint active, the second attempt goes to the
  NORMAL endpoint.
\<close>

theorem rawRpcCall_retry_drops_archive:
  "snd (snd (rawRpcCall (down_at ''https://a0'') (Num 5) 0 two_pools sample_request True)) =
     [\<lparr>at_url = ''https://a0'', at_type = ARCHIVE, at_request = sample_request, at_archive = True\<rparr>,
      \<lparr>at_url = ''https://n0'', at_type = NORMAL, at_request = sample_request, at_archive = False\<rparr>] \<and>
   fst (rawRpcCall (down_at ''https://a0'') (Num 5) 0 two_pools sample_request True) =
     Inr ''response of https://n0'' \<and>
   activeUrl (fst (snd (rawRpcCall (down_at ''https://a0'') (Num 5) 0 two_pools sample_request True)))
     ARCHIVE = active_at ''https://a1'' 1 \<and>
   failed (rpcUrls (fst (snd (rawRpcCall (down_at ''https://a0'') (Num 5) 0 two_pools sample_request True)))
     ARCHIVE ! 1) = False"
  by (simp add: call_defs eval_defs)

text \<open>Every retry carries the request of the call and runs without the archive flag.\<close>

lemma rawRpcCall_retries:
  "rawRpcCall c al n st rq ar = (res, st', atts) \<Longrightarrow>
     (\<forall>x\<in>set atts. at_request x = rq) \<and> (\<forall>x\<in>set (tl atts). \<not> at_archive x) \<and>
     (\<not> ar \<longrightarrow> (\<forall>x\<in>set atts. \<not> at_archive x))"
proof (induction c al n st rq ar arbitrary: res st' atts rule: rawRpcCall.induct)
  case (1 c al n st rq ar)
  show ?case
  proof (cases "resolveUrl st ar")
    case (Inl err)
    with "1.prems" show ?thesis by (simp add: rawRpcCall.simps)
  next
    case (Inr target)
    obtain url k where target: "target = (url, k)" by (cases target)
    show ?thesis
    proof (cases "c n url rq")
      case ok: (Inr response)
      with Inr target "1.prems" show ?thesis by (auto simp: rawRpcCall.simps)
    next
      case down: (Inl e)
      obtain thrown st1 where h: "handleFailedRpcCall al e k st = (thrown, st1)"
        by (cases "handleFailedRpcCall al e k st")
      show ?thesis
      proof (cases thrown)
        case None
        obtain res2 st2 atts2 where
          rec: "rawRpcCall c al (Suc n) st1 rq False = (res2, st2, atts2)"
          by (cases "rawRpcCall c al (Suc n) st1 rq False")
        from "1.IH" [OF Inr target [symmetric] refl down _ None, of st1 res2 st2 atts2] h rec
        have ih: "(\<forall>x\<in>set atts2. at_request x = rq) \<and> (\<forall>x\<in>set atts2. \<not> at_archive x)"
          by simp
        from "1.prems" Inr target down h None rec
        have "atts = \<lparr>at_url = url, at_type = k, at_request = rq, at_archive = ar\<rparr> # atts2"
          by (subst (asm) rawRpcCall.simps) simp
        with ih show ?thesis by simp
      next
        case (Some err)
        with "1.prems" Inr target down h show ?thesis by (auto simp: rawRpcCall.simps)
      qed
    qed
  qed
qed

section \<open>The codec on Tron networks\<close>

text \<open>
  C8: for a Tron network the codec produces the \<open>eth_blockNumber\<close> probe request, but the
  decoder does not read the height: \<open>parseStatusPayload\<close> tests only the UTXO and EVM
  predicates, so on a network that is Tron and neither of those it throws the
  unsupported-network error, whatever the response holds.
\<close>

theorem tron_height_not_decoded:
  "isTronNetwork dto network \<Longrightarrow> \<not> isEvmBasedNetwork dto network \<Longrightarrow>
   \<not> isUtxoBasedNetwork dto network \<Longrightarrow>
     getStatusPayload dto network =
       Inr \<lparr>rpc_jsonrpc = ''2.0'', rpc_method = ''eth_blockNumber'', rpc_params = [], rpc_id = 1\<rparr> \<and>
     parseStatusPayload dto bignumber network result = Inl (UnsupportedNetwork network)"
  by (simp add: getStatusPayload_def parseStatusPayload_def)

theorem tron_height_not_decoded_witness:
  "isTronNetwork sample_dto ''tron-mainnet'' \<and> \<not> isEvmBasedNetwork sample_dto ''tron-mainnet'' \<and>
   \<not> isUtxoBasedNetwork sample_dto ''tron-mainnet'' \<and>
   getStatusPayload sample_dto ''tron-mainnet'' =
     Inr \<lparr>rpc_jsonrpc = ''2.0'', rpc_method = ''eth_blockNumber'', rpc_params = [], rpc_id = 1\<rparr> \<and>
   parseStatusPayload sample_dto (\<lambda>s. Num 16) ''tron-mainnet'' (JString ''0x10'') =
     Inl (UnsupportedNetwork ''tron-mainnet'')"
proof -
  have h: "isTronNetwork sample_dto ''tron-mainnet''"
    "\<not> isEvmBasedNetwork sample_dto ''tron-mainnet''"
    "\<not> isUtxoBasedNetwork sample_dto ''tron-mainnet''"
    by (simp_all add: sample_dto_def)
  from tron_height_not_decoded [OF h, of "\<lambda>s. Num 16" "JString ''0x10''"] h show ?thesis by simp
qed

text \<open>In a probe the \<^verbatim>\<open>catch\<close> turns that error into \<open>failed\<close>, whatever the endpoint answered.\<close>

lemma tron_probe_marks_failed:
  "isTronNetwork dto network \<Longrightarrow> \<not> isEvmBasedNetwork dto network \<Longrightarrow>
   \<not> isUtxoBasedNetwork dto network \<Longrightarrow>
     failed (probe_update dto bignumber network outcome server)"
  by (simp add: probe_update_def parseStatusPayload_def Let_def
      split: ProbeOutcome.splits ProbeBody.splits)

section \<open>Static bootstrap\<close>

lemma rpcUrls_initRemoteHosts_static:
  "rpcUrls (initRemoteHosts hostname r k' nodes True st) k =
     rpcUrls st k @
     (if k = k' then map (\<lambda>s. new_status (node_url s)) (filter (\<lambda>node. node_type node = k) nodes)
      else [])"
  by (auto simp: initRemoteHosts_def Let_def)

lemma rpcUrls_push_custom:
  "rpcUrls (push_custom st node) k =
     rpcUrls st k @ (if node_type node = k then [new_status (node_url node)] else [])"
  by (cases "node_type node"; cases k) (simp_all add: push_custom_def push_status_def)

lemma rpcUrls_foldl_push_custom:
  "rpcUrls (foldl push_custom st nodes) k =
     rpcUrls st k @ map (\<lambda>s. new_status (node_url s)) (filter (\<lambda>node. node_type node = k) nodes)"
  by (induction nodes arbitrary: st) (simp_all add: rpcUrls_push_custom)

text \<open>
  C4: in static mode the endpoints of kind \<open>k\<close> after \<open>initCustomNodes\<close> are the ones
  before it followed by the supplied nodes of type \<open>k\<close> in order, and then by the same
  nodes once more: \<open>initRemoteHosts\<close> appends them and the loop pushes them again, so
  each occurrence of a node is registered twice for its kind.
\<close>

theorem initCustomNodes_registers_twice:
  "rpcUrls (initCustomNodes hostname r1 r2 nodes st) k =
     rpcUrls st k @
     map (\<lambda>s. new_status (node_url s)) (filter (\<lambda>node. node_type node = k) nodes) @
     map (\<lambda>s. new_status (node_url s)) (filter (\<lambda>node. node_type node = k) nodes)"
  by (cases k)
    (auto simp: initCustomNodes_def Let_def rpcUrls_initRemoteHosts_static rpcUrls_foldl_push_custom)

theorem initCustomNodes_registers_twice_witness:
  "rpcUrls (initCustomNodes (\<lambda>u. None) 0 0 [\<lparr>node_url = ''https://a'', node_type = NORMAL\<rparr>]
      initial_state) NORMAL =
     [new_status ''https://a'', new_status ''https://a'']"
  using initCustomNodes_registers_twice [of "\<lambda>u. None" 0 0
      "[\<lparr>node_url = ''https://a'', node_type = NORMAL\<rparr>]" initial_state NORMAL]
  by (simp add: initial_state_def)

section \<open>The SSRF filter\<close>

lemma admitted_pass_initRemoteHosts:
  "admitted_pass hostname st \<Longrightarrow> admitted_pass hostname (initRemoteHosts hostname r k nodes False st)"
  by (auto simp: admitted_pass_def initRemoteHosts_def Let_def new_status_def)

lemma admitted_pass_initRemoteHostsUrls:
  "admitted_pass hostname st \<Longrightarrow> admitted_pass hostname (initRemoteHostsUrls hostname rnd fetched st)"
  by (auto simp: initRemoteHostsUrls_def initBoth_def Let_def admitted_pass_initRemoteHosts
      split: option.splits Manifest.splits)

lemma checkSSRF_iff:
  "checkSSRF hostname url \<longleftrightarrow> (\<exists>host. hostname url = Some host \<and> suffix ''rpc.tatum.io'' host)"
  by (simp add: checkSSRF_def split: option.splits)

text \<open>
  C5: in remote mode (no nodes supplied), every URL in the registry after bootstrap has a
  host name that \<^verbatim>\<open>new URL\<close> could parse and that ends with \<open>rpc.tatum.io\<close>; in static
  mode every supplied node is registered under its type, whatever its URL is.
\<close>

theorem ssrf_filter_by_mode:
  "(\<forall>s\<in>set (rpcUrls (init_registry hostname rnd None fetched initial_state) k).
      \<exists>host. hostname (server_url s) = Some host \<and> suffix ''rpc.tatum.io'' host) \<and>
   (\<forall>node\<in>set nodes.
      new_status (node_url node) \<in>
        set (rpcUrls (init_registry hostname rnd (Some nodes) fetched st) (node_type node)))"
proof
  have "admitted_pass hostname initial_state"
    by (simp add: admitted_pass_def initial_state_def)
  then have "admitted_pass hostname (initRemoteHostsUrls hostname rnd fetched initial_state)"
    by (rule admitted_pass_initRemoteHostsUrls)
  then show "\<forall>s\<in>set (rpcUrls (init_registry hostname rnd None fetched initial_state) k).
      \<exists>host. hostname (server_url s) = Some host \<and> suffix ''rpc.tatum.io'' host"
    by (simp add: init_registry_def admitted_pass_def checkSSRF_iff)
next
  show "\<forall>node\<in>set nodes.
      new_status (node_url node) \<in>
        set (rpcUrls (init_registry hostname rnd (Some nodes) fetched st) (node_type node))"
    by (auto simp: init_registry_def initCustomNodes_def Let_def rpcUrls_initRemoteHosts_static
        rpcUrls_foldl_push_custom)
qed

lemma remote_example:
  "rpcUrls (init_registry sample_hostname (\<lambda>i. 0) None (Some (Nodes sample_manifest, NotOk)) initial_state) NORMAL = [new_status ''https://eth-mainnet.rpc.tatum.io'']"
  by (simp add: init_registry_def initRemoteHostsUrls_def initBoth_def initRemoteHosts_def
      sample_manifest_def sample_hostname_def checkSSRF_def initial_state_def Let_def suffix_to_prefix)

theorem ssrf_filter_by_mode_witness:
  "rpcUrls (init_registry sample_hostname (\<lambda>i. 0) None (Some (Nodes sample_manifest, NotOk))
      initial_state) NORMAL = [new_status ''https://eth-mainnet.rpc.tatum.io''] \<and>
   (\<exists>host. sample_hostname ''https://eth-mainnet.rpc.tatum.io'' = Some host \<and>
      suffix ''rpc.tatum.io'' host) \<and>
   \<lparr>node_url = ''https://evil.com/rpc'', node_type = NORMAL\<rparr> \<in> set sample_manifest \<and>
   new_status ''https://evil.com/rpc'' \<in>
     set (rpcUrls (init_registry sample_hostname (\<lambda>i. 0) (Some sample_manifest) None initial_state)
       NORMAL)"
proof -
  let ?remote = "init_registry sample_hostname (\<lambda>i. 0) None (Some (Nodes sample_manifest, NotOk))
      initial_state"
  have reg: "rpcUrls ?remote NORMAL = [new_status ''https://eth-mainnet.rpc.tatum.io'']"
    by (rule remote_example)
  have mem: "\<lparr>node_url = ''https://evil.com/rpc'', node_type = NORMAL\<rparr> \<in> set sample_manifest"
    by (simp add: sample_manifest_def)
  from ssrf_filter_by_mode [of sample_hostname "\<lambda>i. 0" "Some (Nodes sample_manifest, NotOk)"
      NORMAL sample_manifest initial_state]
    ssrf_filter_by_mode [of sample_hostname "\<lambda>i. 0" None NORMAL sample_manifest initial_state]
    reg mem
  show ?thesis by (auto simp: new_status_def)
qed

section \<open>Preservation of the registry--active consistency\<close>

lemma random_index_bounds:
  assumes "0 \<le> r" "r < 1" "0 < n"
  shows "0 \<le> \<lfloor>r * real n\<rfloor> \<and> nat \<lfloor>r * real n\<rfloor> < n"
proof -
  from assms have "0 \<le> r * real n" by simp
  then have lo: "0 \<le> \<lfloor>r * real n\<rfloor>" by simp
  from assms have "r * real n < real n" by simp
  then have "\<lfloor>r * real n\<rfloor> < int n" by (simp add: floor_less_iff)
  with lo show ?thesis by (simp add: nat_less_iff)
qed

lemma consistent_kind_append:
  "consistent_kind st k \<Longrightarrow> activeUrl st' k = activeUrl st k \<Longrightarrow>
   rpcUrls st' k = rpcUrls st k @ extra \<Longrightarrow> consistent_kind st' k"
  by (auto simp: consistent_kind_def nth_append split: option.splits)

lemma consistent_kind_initRemoteHosts:
  assumes "0 \<le> r" "r < 1" "consistent_kind st k"
  shows "consistent_kind (initRemoteHosts hostname r k' nodes noSSRFCheck st) k"
proof (cases "k = k'")
  case False
  with assms(3) show ?thesis
    by (auto simp: initRemoteHosts_def Let_def consistent_kind_def split: option.splits)
next
  case True
  let ?f = "filter (\<lambda>node.
              let typeMatch = (node_type node = k')
              in if noSSRFCheck then typeMatch
                 else (let ssrfCheckPassed = checkSSRF hostname (node_url node)
                       in typeMatch \<and> ssrfCheckPassed)) nodes"
  show ?thesis
  proof (cases "?f = []")
    case True
    with assms(3) show ?thesis by (simp add: initRemoteHosts_def)
  next
    case False
    let ?urls = "rpcUrls st k' @ map (\<lambda>s. new_status (node_url s)) ?f"
    from False have "0 < length ?urls" by simp
    from random_index_bounds [OF assms(1,2) this]
    have "0 \<le> \<lfloor>r * real (length ?urls)\<rfloor> \<and> nat \<lfloor>r * real (length ?urls)\<rfloor> < length ?urls" .
    with False \<open>k = k'\<close> show ?thesis
      by (simp add: initRemoteHosts_def Let_def consistent_kind_def)
  qed
qed

lemma consistent_initRemoteHosts:
  "0 \<le> r \<Longrightarrow> r < 1 \<Longrightarrow> consistent st \<Longrightarrow>
     consistent (initRemoteHosts hostname r k nodes noSSRFCheck st)"
  by (simp add: consistent_def consistent_kind_initRemoteHosts)

lemma consistent_kind_push_custom:
  "consistent_kind st k \<Longrightarrow> consistent_kind (push_custom st node) k"
  by (rule consistent_kind_append [where extra = "if node_type node = k then [new_status (node_url node)] else []"])
     (simp_all add: rpcUrls_push_custom, simp add: push_custom_def push_status_def Let_def)

lemma consistent_foldl_push_custom:
  "consistent st \<Longrightarrow> consistent (foldl push_custom st nodes)"
  by (induction nodes arbitrary: st) (simp_all add: consistent_def consistent_kind_push_custom)

lemma consistent_initCustomNodes:
  "0 \<le> r1 \<Longrightarrow> r1 < 1 \<Longrightarrow> 0 \<le> r2 \<Longrightarrow> r2 < 1 \<Longrightarrow> consistent st \<Longrightarrow>
     consistent (initCustomNodes hostname r1 r2 nodes st)"
  by (simp add: initCustomNodes_def Let_def consistent_initRemoteHosts consistent_foldl_push_custom)

lemma consistent_initRemoteHostsUrls:
  "\<forall>i. 0 \<le> rnd i \<and> rnd i < 1 \<Longrightarrow> consistent st \<Longrightarrow>
     consistent (initRemoteHostsUrls hostname rnd fetched st)"
  by (auto simp: initRemoteHostsUrls_def initBoth_def Let_def consistent_initRemoteHosts
      split: option.splits Manifest.splits)

lemma server_url_probe_update [simp]:
  "server_url (probe_update dto bignumber network outcome server) = server_url server"
  by (simp add: probe_update_def Let_def split: ProbeOutcome.splits ProbeBody.splits sum.splits)

lemma probed_nth:
  "i < length xs \<Longrightarrow>
     map (\<lambda>(i, server). probe_update dto bignumber network (probes i) server) (enumerate 0 xs) ! i =
     probe_update dto bignumber network (probes i) (xs ! i)"
  by (simp add: nth_enumerate_eq)

lemma consistent_probe_pass:
  assumes "consistent st"
  shows "consistent (probe_pass dto bignumber network allowed probes k st)"
proof -
  let ?ys = "map (\<lambda>(i, server). probe_update dto bignumber network (probes i) server)
              (enumerate 0 (rpcUrls st k))"
  let ?st1 = "st\<lparr>rpcUrls := (rpcUrls st)(k := ?ys)\<rparr>"
  have len: "length ?ys = length (rpcUrls st k)" by simp
  have url: "i < length (rpcUrls st k) \<Longrightarrow> server_url (?ys ! i) = server_url (rpcUrls st k ! i)" for i
    by (simp add: nth_enumerate_eq)
  have kept: "consistent_kind st k' \<Longrightarrow> consistent_kind ?st1 k'" for k'
    using len url by (auto simp: consistent_kind_def split: option.splits)
  with assms have st1: "consistent ?st1" by (simp add: consistent_def)
  show ?thesis
  proof (cases "index (getFastestServer ?ys allowed) = -1")
    case True
    with st1 show ?thesis by (simp add: probe_pass_def Let_def)
  next
    case False
    then have sel: "selects ?ys (getFastestServer ?ys allowed)"
      by (rule getFastestServer_selected)
    let ?st2 = "?st1\<lparr>activeUrl := (activeUrl ?st1)(k :=
          Some \<lparr>active_url = w_url (fastestServer (getFastestServer ?ys allowed)),
                active_index = index (getFastestServer ?ys allowed)\<rparr>)\<rparr>"
    from sel have "consistent_kind ?st2 k"
      by (simp add: consistent_kind_def selects_def as_winner_def)
    moreover have "k' \<noteq> k \<Longrightarrow> consistent_kind ?st2 k'" for k'
      using st1 by (cases k') (auto simp: consistent_def consistent_kind_def split: option.splits)
    ultimately have "consistent ?st2"
      by (cases k) (auto simp: consistent_def)
    with False show ?thesis by (simp add: probe_pass_def Let_def)
  qed
qed

lemma consistent_checkStatus:
  "consistent st \<Longrightarrow> checkStatus dto bignumber network allowed probes k st = Inr st' \<Longrightarrow>
     consistent st'"
  by (auto simp: checkStatus_def consistent_probe_pass split: sum.splits if_splits)

lemma consistent_handleFailedRpcCall:
  assumes "consistent st"
  shows "consistent (snd (handleFailedRpcCall allowed e k st))"
proof (cases "handleFailedRpcCall allowed e k st")
  case (Pair thrown st')
  show ?thesis
  proof (cases "activeUrl st k")
    case None
    with assms show ?thesis by (simp add: handleFailedRpcCall_def getActiveIndex_def)
  next
    case (Some act)
    let ?i = "nat (active_index act)"
    let ?ys = "(rpcUrls st k)[?i := (rpcUrls st k ! ?i)\<lparr>failed := True\<rparr>]"
    let ?st1 = "st\<lparr>rpcUrls := (rpcUrls st)(k := ?ys)\<rparr>"
    show ?thesis
    proof (cases "active_index act < 0 \<or> length (rpcUrls st k) \<le> ?i")
      case True
      with Some assms show ?thesis
        by (simp add: handleFailedRpcCall_def getActiveIndex_def Let_def)
    next
      case False
      have url: "server_url (?ys ! i) = server_url (rpcUrls st k ! i)" for i
        by (cases "i = ?i") (use False in auto)
      have kept: "consistent_kind st k' \<Longrightarrow> consistent_kind ?st1 k'" for k'
        using url by (auto simp: consistent_kind_def split: option.splits)
      with assms have st1: "consistent ?st1" by (simp add: consistent_def)
      show ?thesis
      proof (cases "index (getFastestServer ?ys allowed) = -1")
        case True
        with Some False st1 show ?thesis
          by (simp add: handleFailedRpcCall_def getActiveIndex_def Let_def)
      next
        case nonempty: False
        then have sel: "selects ?ys (getFastestServer ?ys allowed)"
          by (rule getFastestServer_selected)
        let ?st2 = "?st1\<lparr>activeUrl := (activeUrl ?st1)(k :=
          Some \<lparr>active_url = w_url (fastestServer (getFastestServer ?ys allowed)),
                active_index = index (getFastestServer ?ys allowed)\<rparr>)\<rparr>"
        from sel have "consistent_kind ?st2 k"
          by (simp add: consistent_kind_def selects_def as_winner_def)
        moreover have "k' \<noteq> k \<Longrightarrow> consistent_kind ?st2 k'" for k'
          using st1 by (cases k') (auto simp: consistent_def consistent_kind_def split: option.splits)
        ultimately have "consistent ?st2"
          by (cases k) (auto simp: consistent_def)
        with Some False nonempty show ?thesis
          by (simp add: handleFailedRpcCall_def getActiveIndex_def Let_def)
      qed
    qed
  qed
qed

lemma consistent_rawRpcCall:
  "consistent st \<Longrightarrow> consistent (fst (snd (rawRpcCall c al n st rq ar)))"
proof (induction c al n st rq ar rule: rawRpcCall.induct)
  case (1 c al n st rq ar)
  show ?case
  proof (cases "resolveUrl st ar")
    case (Inl err)
    with "1.prems" show ?thesis by (simp add: rawRpcCall.simps)
  next
    case (Inr target)
    obtain url k where target: "target = (url, k)" by (cases target)
    show ?thesis
    proof (cases "c n url rq")
      case ok: (Inr response)
      with Inr target "1.prems" show ?thesis by (simp add: rawRpcCall.simps)
    next
      case down: (Inl e)
      obtain thrown st1 where h: "handleFailedRpcCall al e k st = (thrown, st1)"
        by (cases "handleFailedRpcCall al e k st")
      from consistent_handleFailedRpcCall [OF "1.prems", of al e k] h
      have st1: "consistent st1" by simp
      show ?thesis
      proof (cases thrown)
        case None
        from "1.IH" [OF Inr target [symmetric] refl down _ None, of st1] h st1
        have "consistent (fst (snd (rawRpcCall c al (Suc n) st1 rq False)))" by simp
        with Inr target down h None show ?thesis
          by (subst rawRpcCall.simps) (simp add: split_beta)
      next
        case (Some err)
        with Inr target down h st1 show ?thesis by (simp add: rawRpcCall.simps)
      qed
    qed
  qed
qed

lemma consistent_init_registry:
  "\<forall>i. 0 \<le> rnd i \<and> rnd i < 1 \<Longrightarrow> consistent st \<Longrightarrow>
     consistent (init_registry hostname rnd nodes fetched st)"
  by (simp add: init_registry_def consistent_initCustomNodes consistent_initRemoteHostsUrls
      split: option.splits)

text \<open>
  C9: the consistency of the active entries with the registry (an active entry of kind
  \<open>k\<close> names a position of \<open>endpoints[k]\<close> whose URL is the entry's URL) is preserved by
  every operation that writes an active entry: the random initial selection of
  \<open>initRemoteHosts\<close> and the whole bootstrap, the re-selection after a probe pass, the
  failover of \<open>handleFailedRpcCall\<close> whether it throws or not, and a whole retrying call.
\<close>

theorem active_consistency_preserved:
  "consistent st \<Longrightarrow>
     (0 \<le> r \<and> r < 1 \<longrightarrow> consistent (initRemoteHosts hostname r k nodes noSSRFCheck st)) \<and>
     ((\<forall>i. 0 \<le> rnd i \<and> rnd i < 1) \<longrightarrow> consistent (init_registry hostname rnd supplied fetched st)) \<and>
     (checkStatus dto bignumber network allowed probes k st = Inr st' \<longrightarrow> consistent st') \<and>
     consistent (snd (handleFailedRpcCall allowed e k st)) \<and>
     consistent (fst (snd (rawRpcCall connector allowed n st rq archive)))"
  using consistent_initRemoteHosts [of r st hostname k nodes noSSRFCheck]
    consistent_init_registry [of rnd st hostname supplied fetched]
    consistent_checkStatus [of st dto bignumber network allowed probes k st']
    consistent_handleFailedRpcCall [of st allowed e k]
    consistent_rawRpcCall [of st connector allowed n rq archive]
  by blast

theorem active_consistency_preserved_witness:
  "consistent two_pools \<and>
   consistent (initRemoteHosts sample_hostname (1 / 2) NORMAL sample_manifest False two_pools) \<and>
   consistent (init_registry sample_hostname (\<lambda>i. 1 / 2) (Some sample_manifest) None two_pools) \<and>
   checkStatus sample_dto (\<lambda>s. Num 16) ''ethereum-mainnet'' (Num 5) sample_probes ARCHIVE two_pools =
     Inr (probe_pass sample_dto (\<lambda>s. Num 16) ''ethereum-mainnet'' (Num 5) sample_probes ARCHIVE two_pools) \<and>
   consistent (probe_pass sample_dto (\<lambda>s. Num 16) ''ethereum-mainnet'' (Num 5) sample_probes ARCHIVE two_pools) \<and>
   activeUrl (probe_pass sample_dto (\<lambda>s. Num 16) ''ethereum-mainnet'' (Num 5) sample_probes ARCHIVE two_pools)
     ARCHIVE = active_at ''https://a1'' 1 \<and>
   consistent (snd (handleFailedRpcCall (Num 5) ''down'' ARCHIVE two_pools)) \<and>
   consistent (fst (snd (rawRpcCall always_down (Num 5) 0 two_pools sample_request True)))"
proof -
  have c: "consistent two_pools"
    by (simp add: consistent_def consistent_kind_def state_defs)
  have r: "(0::real) \<le> 1 / 2 \<and> (1::real) / 2 < 1" "\<forall>i::nat. (0::real) \<le> 1 / 2 \<and> (1::real) / 2 < 1"
    by simp_all
  have p: "checkStatus sample_dto (\<lambda>s. Num 16) ''ethereum-mainnet'' (Num 5) sample_probes ARCHIVE two_pools =
     Inr (probe_pass sample_dto (\<lambda>s. Num 16) ''ethereum-mainnet'' (Num 5) sample_probes ARCHIVE two_pools)"
    by (simp add: checkStatus_def getStatusPayload_def sample_dto_def)
  have a: "activeUrl (probe_pass sample_dto (\<lambda>s. Num 16) ''ethereum-mainnet'' (Num 5) sample_probes ARCHIVE
      two_pools) ARCHIVE = active_at ''https://a1'' 1"
    by (simp add: probe_pass_def probe_update_def parseStatusPayload_def sample_dto_def
        sample_probes_def enumerate_eq_zip upt_rec eval_defs)
  from active_consistency_preserved [OF c, of "1 / 2" sample_hostname NORMAL sample_manifest False
      "\<lambda>i. 1 / 2" "Some sample_manifest" None]
  have boot: "consistent (initRemoteHosts sample_hostname (1 / 2) NORMAL sample_manifest False two_pools) \<and>
      consistent (init_registry sample_hostname (\<lambda>i. 1 / 2) (Some sample_manifest) None two_pools)"
    using r by blast
  from active_consistency_preserved [OF c, where k = ARCHIVE and dto = sample_dto and
      bignumber = "\<lambda>s. Num 16" and network = "''ethereum-mainnet''" and allowed = "Num 5" and
      probes = sample_probes and e = "''down''" and connector = always_down and n = 0 and
      rq = sample_request and archive = True and
      st' = "probe_pass sample_dto (\<lambda>s. Num 16) ''ethereum-mainnet'' (Num 5) sample_probes ARCHIVE two_pools"] p
  have run: "consistent (probe_pass sample_dto (\<lambda>s. Num 16) ''ethereum-mainnet'' (Num 5) sample_probes ARCHIVE
        two_pools) \<and>
      consistent (snd (handleFailedRpcCall (Num 5) ''down'' ARCHIVE two_pools)) \<and>
      consistent (fst (snd (rawRpcCall always_down (Num 5) 0 two_pools sample_request True)))"
    by blast
  from c boot p a run show ?thesis by blast
qed

end
